theory Spec2Isabelle
  imports Main "HOL-Library.Word"
begin

unbundle bit_operations_syntax

section \<open>The class-file decoder of diyjvm (src/main.c, include/diyjvm.h)\<close>

text \<open>
  The decoder reads a Java class file through a C \<open>FILE *\<close>. The model keeps the
  stream as the bytes not yet consumed together with the file position, which is all
  that \<open>fread\<close>, \<open>fseek(..., SEEK_CUR)\<close> with a non-negative offset and \<open>ftell\<close> can
  observe. Integers keep their C widths. The host is taken to be little-endian with a
  64-bit \<open>long\<close> (the README asks for GCC on a Unix-like system), \<open>malloc\<close>/\<open>calloc\<close>
  are taken to succeed (also for a size of 0, as they do in glibc), and the stream has no device errors (\<open>ferror\<close> is false), so a
  short read is always an end of file.
\<close>

subsection \<open>Machine integers\<close>

type_synonym u8 = "8 word"
type_synonym u16 = "16 word"
type_synonym u32 = "32 word"

text \<open>\<open>fread\<close> into a \<open>uint16_t\<close>/\<open>uint32_t\<close> followed by \<open>__builtin_bswap16/32\<close>:
  the bytes of the file are the big-endian digits of the value.\<close>

definition bswap16 :: "u8 \<Rightarrow> u8 \<Rightarrow> u16" where
  "bswap16 b0 b1 = push_bit 8 (ucast b0) OR ucast b1"

definition bswap32 :: "u8 \<Rightarrow> u8 \<Rightarrow> u8 \<Rightarrow> u8 \<Rightarrow> u32" where
  "bswap32 b0 b1 b2 b3 =
     push_bit 24 (ucast b0) OR push_bit 16 (ucast b1) OR push_bit 8 (ucast b2) OR ucast b3"

text \<open>The bytes can be read back from the value.\<close>

lemma bswap32_byte3: "ucast (bswap32 b0 b1 b2 b3) = b3"
  unfolding bswap32_def
  by (rule bit_word_eqI) (auto simp add: bit_simps dest: bit_imp_le_length)

lemma bswap32_byte2: "ucast (drop_bit 8 (bswap32 b0 b1 b2 b3)) = b2"
  unfolding bswap32_def
  by (rule bit_word_eqI) (auto simp add: bit_simps dest: bit_imp_le_length)

lemma bswap32_byte1: "ucast (drop_bit 16 (bswap32 b0 b1 b2 b3)) = b1"
  unfolding bswap32_def
  by (rule bit_word_eqI) (auto simp add: bit_simps dest: bit_imp_le_length)

lemma bswap32_byte0: "ucast (drop_bit 24 (bswap32 b0 b1 b2 b3)) = b0"
  unfolding bswap32_def
  by (rule bit_word_eqI) (auto simp add: bit_simps dest: bit_imp_le_length)

lemma bswap16_byte1: "ucast (bswap16 b0 b1) = b1"
  unfolding bswap16_def
  by (rule bit_word_eqI) (auto simp add: bit_simps dest: bit_imp_le_length)

lemma bswap16_byte0: "ucast (drop_bit 8 (bswap16 b0 b1)) = b0"
  unfolding bswap16_def
  by (rule bit_word_eqI) (auto simp add: bit_simps dest: bit_imp_le_length)

subsection \<open>Constants of diyjvm.h\<close>

definition JAVA_MAGIC :: u32 where "JAVA_MAGIC = 0xCAFEBABE"
definition MAX_STRING_LENGTH :: nat where "MAX_STRING_LENGTH = 65535"
definition MAX_CONSTANT_POOL_SIZE :: nat where "MAX_CONSTANT_POOL_SIZE = 32767"

definition CONSTANT_Class :: u8 where "CONSTANT_Class = 7"
definition CONSTANT_Fieldref :: u8 where "CONSTANT_Fieldref = 9"
definition CONSTANT_Methodref :: u8 where "CONSTANT_Methodref = 10"
definition CONSTANT_InterfaceMethodref :: u8 where "CONSTANT_InterfaceMethodref = 11"
definition CONSTANT_String :: u8 where "CONSTANT_String = 8"
definition CONSTANT_Integer :: u8 where "CONSTANT_Integer = 3"
definition CONSTANT_Float :: u8 where "CONSTANT_Float = 4"
definition CONSTANT_Long :: u8 where "CONSTANT_Long = 5"
definition CONSTANT_Double :: u8 where "CONSTANT_Double = 6"
definition CONSTANT_NameAndType :: u8 where "CONSTANT_NameAndType = 12"
definition CONSTANT_Utf8 :: u8 where "CONSTANT_Utf8 = 1"

lemma bswap32_magic:
  "bswap32 b0 b1 b2 b3 = JAVA_MAGIC \<longleftrightarrow> b0 = 0xCA \<and> b1 = 0xFE \<and> b2 = 0xBA \<and> b3 = 0xBE"
proof
  assume h: "bswap32 b0 b1 b2 b3 = JAVA_MAGIC"
  have "b0 = ucast (drop_bit 24 JAVA_MAGIC)" "b1 = ucast (drop_bit 16 JAVA_MAGIC)"
       "b2 = ucast (drop_bit 8 JAVA_MAGIC)" "b3 = ucast JAVA_MAGIC"
    using bswap32_byte0 [of b0 b1 b2 b3] bswap32_byte1 [of b0 b1 b2 b3] bswap32_byte2 [of b0 b1 b2 b3] bswap32_byte3 [of b0 b1 b2 b3]
    unfolding h by simp_all
  then show "b0 = 0xCA \<and> b1 = 0xFE \<and> b2 = 0xBA \<and> b3 = 0xBE"
    by (simp add: JAVA_MAGIC_def drop_bit_eq_div)
next
  assume "b0 = 0xCA \<and> b1 = 0xFE \<and> b2 = 0xBA \<and> b3 = 0xBE"
  then show "bswap32 b0 b1 b2 b3 = JAVA_MAGIC"
    by (simp add: bswap32_def JAVA_MAGIC_def)
qed

lemmas CONSTANT_defs =
  CONSTANT_Class_def CONSTANT_Fieldref_def CONSTANT_Methodref_def
  CONSTANT_InterfaceMethodref_def CONSTANT_String_def CONSTANT_Integer_def
  CONSTANT_Float_def CONSTANT_Long_def CONSTANT_Double_def CONSTANT_NameAndType_def
  CONSTANT_Utf8_def

subsection \<open>The data model of diyjvm.h\<close>

record code_attribute =
  max_stack :: u16
  max_locals :: u16
  code_length :: u32
  code :: "u8 list"

text \<open>The union \<open>info\<close> of \<open>cp_info\<close>. \<open>No_info\<close> is the union as \<open>calloc\<close> leaves it.
  \<open>Utf8_info\<close> holds \<open>length\<close> and the bytes read into \<open>bytes\<close>; the terminating
  \<open>'\\0'\<close> the code appends at \<open>bytes[length]\<close> is implicit (see \<open>strcmp\<close> below).\<close>

datatype cp_union =
    No_info
  | Class_info u16
  | Integer_info u32
  | String_info u16
  | Methodref_info u16 u16
  | Nameandtype_info u16 u16
  | Utf8_info u16 "u8 list"
  | Long_info u32 u32

record cp_info =
  tag :: u8
  info :: cp_union

record method_info =
  method_access_flags :: u16
  name_index :: u16
  descriptor_index :: u16
  attributes_count :: u16
  code_attribute :: "code_attribute option"

record ClassFile =
  magic :: u32
  minor_version :: u16
  major_version :: u16
  constant_pool_count :: u16
  constant_pool :: "cp_info list"
  access_flags :: u16
  this_class :: u16
  super_class :: u16
  interfaces_count :: u16
  fields_count :: u16
  methods_count :: u16
  methods :: "method_info list"

text \<open>What \<open>calloc\<close> and \<open>memset(cf, 0, ...)\<close> produce.\<close>

definition zero_cp_info :: cp_info where
  "zero_cp_info = \<lparr>tag = 0, info = No_info\<rparr>"

definition zero_method_info :: method_info where
  "zero_method_info = \<lparr>method_access_flags = 0, name_index = 0, descriptor_index = 0,
     attributes_count = 0, code_attribute = None\<rparr>"

definition zero_ClassFile :: ClassFile where
  "zero_ClassFile = \<lparr>magic = 0, minor_version = 0, major_version = 0,
     constant_pool_count = 0, constant_pool = [], access_flags = 0, this_class = 0,
     super_class = 0, interfaces_count = 0, fields_count = 0, methods_count = 0,
     methods = []\<rparr>"

subsection \<open>The input stream\<close>

record FILE =
  unread :: "u8 list"
  position :: nat

definition fopen :: "u8 list \<Rightarrow> FILE" where
  "fopen bs = \<lparr>unread = bs, position = 0\<rparr>"

text \<open>\<open>safe_fread(buffer, size, count, fp)\<close> with \<open>n = size * count\<close> bytes asked for
  (the code calls it with \<open>size = 1\<close> or \<open>count = 1\<close>): \<open>Some\<close> of the bytes when all
  are there, \<open>None\<close> (the return value 0) on a short read, which leaves the stream at
  its end. Asking for no bytes always succeeds.\<close>

definition safe_fread :: "nat \<Rightarrow> FILE \<Rightarrow> u8 list option \<times> FILE" where
  "safe_fread n fp =
     (if n \<le> length (unread fp)
      then (Some (take n (unread fp)),
            \<lparr>unread = drop n (unread fp), position = position fp + n\<rparr>)
      else (None, \<lparr>unread = [], position = position fp + length (unread fp)\<rparr>))"

text \<open>\<open>fseek(fp, n, SEEK_CUR)\<close> for \<open>n \<ge> 0\<close> on a regular file: the position may be
  set beyond the end of the data, and the call returns 0.\<close>

definition fseek_cur :: "FILE \<Rightarrow> nat \<Rightarrow> int \<times> FILE" where
  "fseek_cur fp n = (0, \<lparr>unread = drop n (unread fp), position = position fp + n\<rparr>)"

text \<open>The readers take the flag \<open>*ok\<close> and return it: a failed read clears it and
  yields 0, a successful read leaves it as it was.\<close>

definition read_u4 :: "FILE \<Rightarrow> bool \<Rightarrow> u32 \<times> bool \<times> FILE" where
  "read_u4 fp ok =
     (case safe_fread 4 fp of
        (Some [b0, b1, b2, b3], fp') \<Rightarrow> (bswap32 b0 b1 b2 b3, ok, fp')
      | (_, fp') \<Rightarrow> (0, False, fp'))"

definition read_u2 :: "FILE \<Rightarrow> bool \<Rightarrow> u16 \<times> bool \<times> FILE" where
  "read_u2 fp ok =
     (case safe_fread 2 fp of
        (Some [b0, b1], fp') \<Rightarrow> (bswap16 b0 b1, ok, fp')
      | (_, fp') \<Rightarrow> (0, False, fp'))"

definition read_u1 :: "FILE \<Rightarrow> bool \<Rightarrow> u8 \<times> bool \<times> FILE" where
  "read_u1 fp ok =
     (case safe_fread 1 fp of
        (Some [b0], fp') \<Rightarrow> (b0, ok, fp')
      | (_, fp') \<Rightarrow> (0, False, fp'))"

text \<open>The readers as functions of the bytes that are left.\<close>

lemma read_u1_eq:
  "read_u1 fp ok =
     (if 1 \<le> length (unread fp)
      then (unread fp ! 0, ok, \<lparr>unread = drop 1 (unread fp), position = position fp + 1\<rparr>)
      else (0, False, \<lparr>unread = [], position = position fp + length (unread fp)\<rparr>))"
proof (cases "unread fp")
  case Nil
  then show ?thesis by (simp add: read_u1_def safe_fread_def)
next
  case (Cons a as)
  then show ?thesis by (simp add: read_u1_def safe_fread_def)
qed

lemma read_u2_eq:
  "read_u2 fp ok =
     (if 2 \<le> length (unread fp)
      then (bswap16 (unread fp ! 0) (unread fp ! 1), ok,
            \<lparr>unread = drop 2 (unread fp), position = position fp + 2\<rparr>)
      else (0, False, \<lparr>unread = [], position = position fp + length (unread fp)\<rparr>))"
proof (cases "unread fp")
  case Nil
  then show ?thesis by (simp add: read_u2_def safe_fread_def)
next
  case (Cons a as)
  then show ?thesis by (cases as) (simp_all add: read_u2_def safe_fread_def)
qed

lemma four_bytes_cases:
  obtains (short) "length (bs :: u8 list) < 4"
  | (long) a b c d r where "bs = a # b # c # d # r"
proof (cases bs)
  case Nil
  then show ?thesis using short by simp
next
  case A: (Cons a as)
  show ?thesis
  proof (cases as)
    case Nil
    then show ?thesis using short A by simp
  next
    case B: (Cons b bs')
    show ?thesis
    proof (cases bs')
      case Nil
      then show ?thesis using short A B by simp
    next
      case C: (Cons c cs)
      then show ?thesis using short long A B by (cases cs) simp_all
    qed
  qed
qed

lemma read_u4_eq:
  "read_u4 fp ok =
     (if 4 \<le> length (unread fp)
      then (bswap32 (unread fp ! 0) (unread fp ! 1) (unread fp ! 2) (unread fp ! 3), ok,
            \<lparr>unread = drop 4 (unread fp), position = position fp + 4\<rparr>)
      else (0, False, \<lparr>unread = [], position = position fp + length (unread fp)\<rparr>))"
proof (cases "unread fp" rule: four_bytes_cases)
  case short
  then show ?thesis by (simp add: read_u4_def safe_fread_def)
next
  case long
  then show ?thesis by (simp add: read_u4_def safe_fread_def)
qed

subsection \<open>One constant-pool entry\<close>

text \<open>\<open>read_constant_pool_entry(fp, entry, ok)\<close> returns the number of table slots
  (0 on failure) and updates \<open>*entry\<close>, \<open>*ok\<close> and the stream. \<open>cp_switch\<close> is the
  \<open>switch\<close> on the tag, its cases in the order of the source: the first component is
  \<open>Some n\<close> where a case executes \<open>return n\<close> and \<open>None\<close> where it ends in \<open>break\<close>.
  \<open>CONSTANT_Float\<close> has no case in the source and takes the default. After a short
  read of the string bytes the buffer holds the bytes that were there.\<close>

definition cp_switch ::
    "u8 \<Rightarrow> FILE \<Rightarrow> cp_info \<Rightarrow> bool \<Rightarrow> nat option \<times> cp_info \<times> bool \<times> FILE" where
  "cp_switch t fp entry ok =
     (if t = CONSTANT_Class then
        (let (v, ok, fp) = read_u2 fp ok
         in (None, entry\<lparr>info := Class_info v\<rparr>, ok, fp))
      else if t = CONSTANT_Utf8 then
        (let (len, ok, fp) = read_u2 fp ok in
         if \<not> ok then (Some 0, entry, ok, fp)
         else if unat len > MAX_STRING_LENGTH then (Some 0, entry, False, fp)
         else
           (case safe_fread (unat len) fp of
              (None, fp') \<Rightarrow> (Some 0, entry\<lparr>info := Utf8_info len (unread fp)\<rparr>, False, fp')
            | (Some bs, fp') \<Rightarrow> (None, entry\<lparr>info := Utf8_info len bs\<rparr>, ok, fp')))
      else if t = CONSTANT_Integer then
        (let (v, ok, fp) = read_u4 fp ok
         in (None, entry\<lparr>info := Integer_info v\<rparr>, ok, fp))
      else if t = CONSTANT_String then
        (let (v, ok, fp) = read_u2 fp ok
         in (None, entry\<lparr>info := String_info v\<rparr>, ok, fp))
      else if t = CONSTANT_Fieldref \<or> t = CONSTANT_Methodref
              \<or> t = CONSTANT_InterfaceMethodref then
        (let (c, ok, fp) = read_u2 fp ok;
             (n, ok, fp) = read_u2 fp ok
         in (None, entry\<lparr>info := Methodref_info c n\<rparr>, ok, fp))
      else if t = CONSTANT_NameAndType then
        (let (n, ok, fp) = read_u2 fp ok;
             (d, ok, fp) = read_u2 fp ok
         in (None, entry\<lparr>info := Nameandtype_info n d\<rparr>, ok, fp))
      else if t = CONSTANT_Long \<or> t = CONSTANT_Double then
        (let (h, ok, fp) = read_u4 fp ok;
             (l, ok, fp) = read_u4 fp ok
         in (Some 2, entry\<lparr>info := Long_info h l\<rparr>, ok, fp))
      else (None, entry, ok, fp))"

definition read_constant_pool_entry ::
    "FILE \<Rightarrow> cp_info \<Rightarrow> bool \<Rightarrow> nat \<times> cp_info \<times> bool \<times> FILE" where
  "read_constant_pool_entry fp entry ok =
     (let (t, ok, fp) = read_u1 fp ok; entry = entry\<lparr>tag := t\<rparr> in
      if \<not> ok then (0, entry, ok, fp)
      else
        (case cp_switch t fp entry ok of
           (Some n, entry, ok, fp) \<Rightarrow> (n, entry, ok, fp)
         | (None, entry, ok, fp) \<Rightarrow>
             if \<not> ok then (0, entry, ok, fp) else (1, entry, ok, fp)))"

subsection \<open>Errors and results\<close>

text \<open>\<open>read_class_file\<close> returns \<open>NULL\<close> on every failure, after printing one
  message through \<open>ERROR_AND_CLEANUP\<close>, releasing the container and closing the
  stream. The model returns which message it was, one constructor for each message of
  the source, and the stream as it was when the function returned.\<close>

datatype error =
    Invalid_or_missing_magic_number
  | Could_not_read_version_numbers
  | Unsupported_class_file_version
  | Invalid_constant_pool_count
  | Failed_reading_constant_pool_entry nat
  | Could_not_read_class_header
  | Could_not_read_interfaces_count
  | Seek_failed_skipping_interfaces
  | Could_not_read_fields_count
  | Could_not_read_field_info
  | Error_reading_field_attribute
  | Seek_failed_skipping_field_attribute
  | Could_not_read_methods_count
  | Method_count_suspiciously_large
  | Could_not_read_method_info
  | Error_reading_method_attribute
  | Could_not_read_code_core_fields
  | Could_not_read_code_bytes
  | Could_not_read_exception_table_length
  | Seek_failed_skipping_exception_table
  | Could_not_read_code_attribute_count
  | Error_reading_code_sub_attribute
  | Seek_failed_skipping_sub_attribute
  | Seek_failed_skipping_unknown_method_attribute
  | Attribute_name_index_out_of_range

type_synonym 'a result = "(error + 'a) \<times> FILE"

text \<open>Sequencing of two parts of \<open>read_class_file\<close>: an \<open>ERROR_AND_CLEANUP\<close> in the
  first part returns from the whole function.\<close>

definition andThen :: "'a result \<Rightarrow> ('a \<Rightarrow> FILE \<Rightarrow> 'b result) \<Rightarrow> 'b result" where
  "andThen r k = (case r of (Inl e, file) \<Rightarrow> (Inl e, file) | (Inr x, file) \<Rightarrow> k x file)"

lemma andThen_cong [fundef_cong]:
  "r = r' \<Longrightarrow> (\<And>x f. r' = (Inr x, f) \<Longrightarrow> k x f = k' x f) \<Longrightarrow> andThen r k = andThen r' k'"
  by (auto simp: andThen_def split: prod.splits sum.splits)

lemma andThen_Inr_iff:
  "andThen r k = (Inr y, f') \<longleftrightarrow> (\<exists>x f. r = (Inr x, f) \<and> k x f = (Inr y, f'))"
  by (cases r; cases "fst r") (auto simp: andThen_def)

lemma andThen_Inl [simp]: "andThen (Inl e, f) k = (Inl e, f)"
  by (simp add: andThen_def)

lemma andThen_Inr [simp]: "andThen (Inr x, f) k = k x f"
  by (simp add: andThen_def)

subsection \<open>\<open>read_class_file\<close>: header and constant pool (lines 146 to 208)\<close>

definition read_magic :: "ClassFile \<Rightarrow> FILE \<Rightarrow> ClassFile result" where
  "read_magic cf file =
     (let (v, ok, file) = read_u4 file True; cf = cf\<lparr>magic := v\<rparr> in
      if \<not> ok \<or> magic cf \<noteq> JAVA_MAGIC then (Inl Invalid_or_missing_magic_number, file)
      else (Inr cf, file))"

definition read_version :: "ClassFile \<Rightarrow> FILE \<Rightarrow> ClassFile result" where
  "read_version cf file =
     (let (v, ok, file) = read_u2 file True; cf = cf\<lparr>minor_version := v\<rparr>;
          (v, ok, file) = read_u2 file ok; cf = cf\<lparr>major_version := v\<rparr> in
      if \<not> ok then (Inl Could_not_read_version_numbers, file)
      else if major_version cf < 45 \<or> major_version cf > 69
        then (Inl Unsupported_class_file_version, file)
      else (Inr cf, file))"

definition read_constant_pool_count :: "ClassFile \<Rightarrow> FILE \<Rightarrow> ClassFile result" where
  "read_constant_pool_count cf file =
     (let (v, ok, file) = read_u2 file True; cf = cf\<lparr>constant_pool_count := v\<rparr> in
      if \<not> ok \<or> unat (constant_pool_count cf) > MAX_CONSTANT_POOL_SIZE
        then (Inl Invalid_constant_pool_count, file)
      else (Inr (cf\<lparr>constant_pool :=
                     replicate (unat (constant_pool_count cf)) zero_cp_info\<rparr>), file))"

text \<open>The loop \<open>for (int i = 1; i < cf->constant_pool_count;)\<close>, from index \<open>i\<close> on.\<close>

function read_constant_pool_from ::
    "nat \<Rightarrow> ClassFile \<Rightarrow> FILE \<Rightarrow> ClassFile result" where
  "read_constant_pool_from i cf file =
     (if i < unat (constant_pool_count cf) then
        (case read_constant_pool_entry file (constant_pool cf ! i) True of
           (step, entry, ok, file') \<Rightarrow>
             if \<not> ok \<or> step = 0
               then (Inl (Failed_reading_constant_pool_entry i), file')
             else read_constant_pool_from (i + step)
                    (cf\<lparr>constant_pool := (constant_pool cf)[i := entry]\<rparr>) file')
      else (Inr cf, file))"
  by pat_completeness auto
termination
  by (relation "measure (\<lambda>(i, cf, file). unat (constant_pool_count cf) - i)") auto

declare read_constant_pool_from.simps [simp del]

definition read_constant_pool :: "ClassFile \<Rightarrow> FILE \<Rightarrow> ClassFile result" where
  "read_constant_pool cf file = read_constant_pool_from 1 cf file"

subsection \<open>\<open>read_class_file\<close>: class header, interfaces and fields (lines 210 to 284)\<close>

definition read_class_header :: "ClassFile \<Rightarrow> FILE \<Rightarrow> ClassFile result" where
  "read_class_header cf file =
     (let (v, ok, file) = read_u2 file True; cf = cf\<lparr>access_flags := v\<rparr>;
          (v, ok, file) = read_u2 file ok; cf = cf\<lparr>this_class := v\<rparr>;
          (v, ok, file) = read_u2 file ok; cf = cf\<lparr>super_class := v\<rparr> in
      if \<not> ok then (Inl Could_not_read_class_header, file) else (Inr cf, file))"

definition skip_interfaces :: "ClassFile \<Rightarrow> FILE \<Rightarrow> ClassFile result" where
  "skip_interfaces cf file =
     (let (v, ok, file) = read_u2 file True; cf = cf\<lparr>interfaces_count := v\<rparr> in
      if \<not> ok then (Inl Could_not_read_interfaces_count, file)
      else if unat (interfaces_count cf) > 0 then
        (let skipBytes = unat (interfaces_count cf) * 2;
             (r, file) = fseek_cur file skipBytes in
         if r \<noteq> 0 then (Inl Seek_failed_skipping_interfaces, file) else (Inr cf, file))
      else (Inr cf, file))"

text \<open>The body of the loop over the attributes of a field, and the loop
  \<open>for (int j = 0; j < field_attr_count; ++j)\<close> from \<open>j\<close> on.\<close>

definition skip_field_attribute :: "FILE \<Rightarrow> unit result" where
  "skip_field_attribute file =
     (let (attr_name_index, ok, file) = read_u2 file True;
          (attr_length, ok, file) = read_u4 file ok in
      if \<not> ok then (Inl Error_reading_field_attribute, file)
      else
        (let (r, file) = fseek_cur file (unat attr_length) in
         if r \<noteq> 0 then (Inl Seek_failed_skipping_field_attribute, file)
         else (Inr (), file)))"

function skip_field_attributes :: "nat \<Rightarrow> u16 \<Rightarrow> FILE \<Rightarrow> unit result" where
  "skip_field_attributes j field_attr_count file =
     (if j < unat field_attr_count then
        andThen (skip_field_attribute file)
          (\<lambda>_ file. skip_field_attributes (j + 1) field_attr_count file)
      else (Inr (), file))"
  by pat_completeness auto
termination
  by (relation "measure (\<lambda>(j, n, file). unat n - j)") auto

declare skip_field_attributes.simps [simp del]

text \<open>The body of the loop over the fields, and the loop
  \<open>for (int i = 0; i < cf->fields_count; i++)\<close> from \<open>i\<close> on.\<close>

definition skip_field :: "FILE \<Rightarrow> unit result" where
  "skip_field file =
     (let (field_access, ok, file) = read_u2 file True;
          (field_name, ok, file) = read_u2 file ok;
          (field_desc, ok, file) = read_u2 file ok;
          (field_attr_count, ok, file) = read_u2 file ok in
      if \<not> ok then (Inl Could_not_read_field_info, file)
      else skip_field_attributes 0 field_attr_count file)"

function skip_fields_from :: "nat \<Rightarrow> ClassFile \<Rightarrow> FILE \<Rightarrow> ClassFile result" where
  "skip_fields_from i cf file =
     (if i < unat (fields_count cf) then
        andThen (skip_field file) (\<lambda>_ file. skip_fields_from (i + 1) cf file)
      else (Inr cf, file))"
  by pat_completeness auto
termination
  by (relation "measure (\<lambda>(i, cf, file). unat (fields_count cf) - i)") auto

declare skip_fields_from.simps [simp del]

definition skip_fields :: "ClassFile \<Rightarrow> FILE \<Rightarrow> ClassFile result" where
  "skip_fields cf file =
     (let (v, ok, file) = read_u2 file True; cf = cf\<lparr>fields_count := v\<rparr> in
      if \<not> ok then (Inl Could_not_read_fields_count, file)
      else skip_fields_from 0 cf file)"

subsection \<open>\<open>read_class_file\<close>: methods (lines 286 to 444)\<close>

definition read_methods_count :: "ClassFile \<Rightarrow> FILE \<Rightarrow> ClassFile result" where
  "read_methods_count cf file =
     (let (v, ok, file) = read_u2 file True; cf = cf\<lparr>methods_count := v\<rparr> in
      if \<not> ok then (Inl Could_not_read_methods_count, file)
      else if unat (methods_count cf) > 1000 then (Inl Method_count_suspiciously_large, file)
      else (Inr (cf\<lparr>methods := replicate (unat (methods_count cf)) zero_method_info\<rparr>),
            file))"

text \<open>\<open>strcmp(bytes, "Code") == 0\<close> on the buffer \<open>bytes\<close> with its appended
  \<open>'\\0'\<close>: the C string ends at the first zero byte.\<close>

definition c_string :: "u8 list \<Rightarrow> u8 list" where
  "c_string bs = takeWhile (\<lambda>b. b \<noteq> 0) bs"

definition Code_literal :: "u8 list" where
  "Code_literal = [0x43, 0x6F, 0x64, 0x65]"

text \<open>The test \<open>attrName->tag == CONSTANT_Utf8 && strcmp(...) == 0\<close>. An entry with
  the tag \<open>CONSTANT_Utf8\<close> always carries \<open>Utf8_info\<close> in a pool that was read
  (\<open>read_constant_pool_entry\<close> fails otherwise); the last case is there for totality.\<close>

definition is_Code_name :: "cp_info \<Rightarrow> bool" where
  "is_Code_name attrName =
     (tag attrName = CONSTANT_Utf8 \<and>
      (case info attrName of
         Utf8_info len bs \<Rightarrow> c_string bs = Code_literal
       | _ \<Rightarrow> False))"

text \<open>The body of the loop over the sub-attributes of \<open>Code\<close>, and the loop
  \<open>for (int k = 0; k < code_attr_count; k++)\<close> from \<open>k\<close> on.\<close>

definition skip_code_sub_attribute :: "FILE \<Rightarrow> unit result" where
  "skip_code_sub_attribute file =
     (let (sub_attr_name_idx, ok, file) = read_u2 file True;
          (sub_attr_len, ok, file) = read_u4 file ok in
      if \<not> ok then (Inl Error_reading_code_sub_attribute, file)
      else
        (let (r, file) = fseek_cur file (unat sub_attr_len) in
         if r \<noteq> 0 then (Inl Seek_failed_skipping_sub_attribute, file)
         else (Inr (), file)))"

function skip_code_sub_attributes :: "nat \<Rightarrow> u16 \<Rightarrow> FILE \<Rightarrow> unit result" where
  "skip_code_sub_attributes k code_attr_count file =
     (if k < unat code_attr_count then
        andThen (skip_code_sub_attribute file)
          (\<lambda>_ file. skip_code_sub_attributes (k + 1) code_attr_count file)
      else (Inr (), file))"
  by pat_completeness auto
termination
  by (relation "measure (\<lambda>(k, n, file). unat n - k)") auto

declare skip_code_sub_attributes.simps [simp del]

text \<open>The branch taken for a \<open>Code\<close> attribute, in two parts: the exception table and
  the sub-attributes, which are skipped (lines 385 to 426), and before them the fields
  and the instruction bytes, which are kept (lines 351 to 383). Neither part receives
  \<open>attr_length\<close>: the source does not mention the variable in this branch.\<close>

definition skip_code_tail :: "FILE \<Rightarrow> unit result" where
  "skip_code_tail file =
     (let (exception_table_length, ok, file) = read_u2 file True in
      if \<not> ok then (Inl Could_not_read_exception_table_length, file)
      else
        (let skipBytes = unat exception_table_length * 8;
             (r, file) = fseek_cur file skipBytes in
         if r \<noteq> 0 then (Inl Seek_failed_skipping_exception_table, file)
         else
           (let (code_attr_count, ok, file) = read_u2 file True in
            if \<not> ok then (Inl Could_not_read_code_attribute_count, file)
            else skip_code_sub_attributes 0 code_attr_count file)))"

definition read_code_attribute :: "method_info \<Rightarrow> FILE \<Rightarrow> method_info result" where
  "read_code_attribute method file =
     (let (stack, ok, file) = read_u2 file True;
          (locals, ok, file) = read_u2 file ok;
          (len, ok, file) = read_u4 file ok in
      if \<not> ok then (Inl Could_not_read_code_core_fields, file)
      else
        (case safe_fread (unat len) file of
           (None, file) \<Rightarrow> (Inl Could_not_read_code_bytes, file)
         | (Some bs, file) \<Rightarrow>
             (let method = method\<lparr>code_attribute :=
                    Some \<lparr>max_stack = stack, max_locals = locals, code_length = len,
                          code = bs\<rparr>\<rparr>
              in andThen (skip_code_tail file) (\<lambda>_ file. (Inr method, file)))))"

text \<open>The body of the loop over the attributes of a method (lines 335 to 442).\<close>

definition read_method_attribute ::
    "ClassFile \<Rightarrow> method_info \<Rightarrow> FILE \<Rightarrow> method_info result" where
  "read_method_attribute cf method file =
     (let (attribute_name_index, ok, file) = read_u2 file True;
          (attr_length, ok, file) = read_u4 file ok in
      if \<not> ok then (Inl Error_reading_method_attribute, file)
      else if unat attribute_name_index < unat (constant_pool_count cf) then
        (let attrName = constant_pool cf ! unat attribute_name_index in
         if is_Code_name attrName then read_code_attribute method file
         else
           (let (r, file) = fseek_cur file (unat attr_length) in
            if r \<noteq> 0 then (Inl Seek_failed_skipping_unknown_method_attribute, file)
            else (Inr method, file)))
      else (Inl Attribute_name_index_out_of_range, file))"

text \<open>Decoding an attribute leaves \<open>method->attributes_count\<close>, the bound of the
  loop below, as it is.\<close>

lemma read_code_attribute_attributes_count:
  "read_code_attribute method file = (Inr method', file') \<Longrightarrow>
   attributes_count method' = attributes_count method"
  unfolding read_code_attribute_def
  by (simp add: read_u2_eq read_u4_eq Let_def safe_fread_def andThen_Inr_iff split: if_splits) auto

lemma read_method_attribute_attributes_count:
  "read_method_attribute cf method file = (Inr method', file') \<Longrightarrow>
   attributes_count method' = attributes_count method"
  unfolding read_method_attribute_def
  by (simp add: read_u2_eq read_u4_eq Let_def fseek_cur_def split: if_splits)
     (auto dest: read_code_attribute_attributes_count)

text \<open>The loop \<open>for (int j = 0; j < method->attributes_count; j++)\<close>, from \<open>j\<close> on.\<close>

function read_method_attributes ::
    "nat \<Rightarrow> ClassFile \<Rightarrow> method_info \<Rightarrow> FILE \<Rightarrow> method_info result" where
  "read_method_attributes j cf method file =
     (if j < unat (attributes_count method) then
        andThen (read_method_attribute cf method file)
          (\<lambda>method file. read_method_attributes (j + 1) cf method file)
      else (Inr method, file))"
  by pat_completeness auto
termination
  by (relation "measure (\<lambda>(j, cf, m, file). unat (attributes_count m) - j)")
     (auto dest!: read_method_attribute_attributes_count)

declare read_method_attributes.simps [simp del]

text \<open>One turn of the loop over the methods: the four fields, then the attributes.\<close>

definition read_method :: "ClassFile \<Rightarrow> method_info \<Rightarrow> FILE \<Rightarrow> method_info result" where
  "read_method cf method file =
     (let (v, ok, file) = read_u2 file True; method = method\<lparr>method_access_flags := v\<rparr>;
          (v, ok, file) = read_u2 file ok; method = method\<lparr>name_index := v\<rparr>;
          (v, ok, file) = read_u2 file ok; method = method\<lparr>descriptor_index := v\<rparr>;
          (v, ok, file) = read_u2 file ok; method = method\<lparr>attributes_count := v\<rparr> in
      if \<not> ok then (Inl Could_not_read_method_info, file)
      else read_method_attributes 0 cf method file)"

text \<open>The loop \<open>for (int i = 0; i < cf->methods_count; i++)\<close>, from \<open>i\<close> on.\<close>

function read_methods_from :: "nat \<Rightarrow> ClassFile \<Rightarrow> FILE \<Rightarrow> ClassFile result" where
  "read_methods_from i cf file =
     (if i < unat (methods_count cf) then
        andThen (read_method cf (methods cf ! i) file)
          (\<lambda>method file.
             read_methods_from (i + 1) (cf\<lparr>methods := (methods cf)[i := method]\<rparr>) file)
      else (Inr cf, file))"
  by pat_completeness auto
termination
  by (relation "measure (\<lambda>(i, cf, file). unat (methods_count cf) - i)") auto

declare read_methods_from.simps [simp del]

definition read_methods :: "ClassFile \<Rightarrow> FILE \<Rightarrow> ClassFile result" where
  "read_methods cf file = read_methods_from 0 cf file"

subsection \<open>\<open>read_class_file\<close>\<close>

text \<open>The function on an opened stream: the parts above in the order of the source,
  first everything before the loop over the methods (lines 146 to 313), then the loop.\<close>

definition read_before_methods :: "FILE \<Rightarrow> ClassFile result" where
  "read_before_methods file =
     andThen (read_magic zero_ClassFile file) (\<lambda>cf file.
     andThen (read_version cf file) (\<lambda>cf file.
     andThen (read_constant_pool_count cf file) (\<lambda>cf file.
     andThen (read_constant_pool cf file) (\<lambda>cf file.
     andThen (read_class_header cf file) (\<lambda>cf file.
     andThen (skip_interfaces cf file) (\<lambda>cf file.
     andThen (skip_fields cf file) (\<lambda>cf file.
     read_methods_count cf file)))))))"

definition read_class_file :: "FILE \<Rightarrow> ClassFile result" where
  "read_class_file file = andThen (read_before_methods file) read_methods"

subsection \<open>The loops over methods and attributes after some turns\<close>

text \<open>\<open>attributes_after n\<close> is the state in which the loop over the attributes of a
  method stands after \<open>n\<close> attributes were decoded without error, and
  \<open>methods_after n i\<close> the state of the loop over the methods after \<open>n\<close> methods,
  from index \<open>i\<close> on, were decoded without error; \<open>None\<close> when one of them fails.
  They are used to speak about an attribute that is not the first one.\<close>

fun attributes_after ::
    "nat \<Rightarrow> ClassFile \<Rightarrow> method_info \<Rightarrow> FILE \<Rightarrow> (method_info \<times> FILE) option" where
  "attributes_after 0 cf method file = Some (method, file)"
| "attributes_after (Suc n) cf method file =
     (case read_method_attribute cf method file of
        (Inr method', file') \<Rightarrow> attributes_after n cf method' file'
      | (Inl e, file') \<Rightarrow> None)"

fun methods_after ::
    "nat \<Rightarrow> nat \<Rightarrow> ClassFile \<Rightarrow> FILE \<Rightarrow> (ClassFile \<times> FILE) option" where
  "methods_after 0 i cf file = Some (cf, file)"
| "methods_after (Suc n) i cf file =
     (case read_method cf (methods cf ! i) file of
        (Inr method, file') \<Rightarrow>
          methods_after n (i + 1) (cf\<lparr>methods := (methods cf)[i := method]\<rparr>) file'
      | (Inl e, file') \<Rightarrow> None)"


section \<open>Notions and inputs used in the properties\<close>

text \<open>The tags that have a case in the \<open>switch\<close> of \<open>read_constant_pool_entry\<close>.\<close>

definition switch_cases :: "u8 list" where
  "switch_cases = [CONSTANT_Class, CONSTANT_Utf8, CONSTANT_Integer, CONSTANT_String,
     CONSTANT_Fieldref, CONSTANT_Methodref, CONSTANT_InterfaceMethodref,
     CONSTANT_NameAndType, CONSTANT_Long, CONSTANT_Double]"

text \<open>The invariant of the loop over the pool when it stands at index \<open>i\<close>: the table
  has \<open>constant_pool_count\<close> slots; slot 0 and the slots from \<open>i\<close> on are as \<open>calloc\<close>
  left them; an entry before \<open>i\<close> with the tag \<open>Long\<close> or \<open>Double\<close> ends at least two
  slots before \<open>i\<close> and the slot after it is as \<open>calloc\<close> left it; and every string
  entry holds as many bytes as its \<open>length\<close> says.\<close>

definition pool_inv :: "nat \<Rightarrow> ClassFile \<Rightarrow> bool" where
  "pool_inv i cf \<longleftrightarrow>
     length (constant_pool cf) = unat (constant_pool_count cf) \<and> 1 \<le> i \<and>
     (\<forall>j < length (constant_pool cf). j = 0 \<or> i \<le> j \<longrightarrow> constant_pool cf ! j = zero_cp_info) \<and>
     (\<forall>j < length (constant_pool cf). j < i \<longrightarrow>
        tag (constant_pool cf ! j) = CONSTANT_Long \<or> tag (constant_pool cf ! j) = CONSTANT_Double \<longrightarrow>
        j + 2 \<le> i \<and> (j + 1 < length (constant_pool cf) \<longrightarrow>
                      constant_pool cf ! (j + 1) = zero_cp_info)) \<and>
     (\<forall>j < length (constant_pool cf). \<forall>len bs.
        info (constant_pool cf ! j) = Utf8_info len bs \<longrightarrow> length bs = unat len)"

text \<open>The parts of \<open>read_class_file\<close> after the pool leave the pool as it is.\<close>

definition same_pool :: "ClassFile \<Rightarrow> ClassFile \<Rightarrow> bool" where
  "same_pool cf cf' \<longleftrightarrow>
     constant_pool_count cf' = constant_pool_count cf \<and> constant_pool cf' = constant_pool cf"

text \<open>The errors that \<open>read_class_file\<close> raises up to and including the check of the
  version. No later part of the function raises one of them.\<close>

definition version_check_error :: "error \<Rightarrow> bool" where
  "version_check_error e \<longleftrightarrow>
     e = Invalid_or_missing_magic_number \<or> e = Could_not_read_version_numbers \<or>
     e = Unsupported_class_file_version"

text \<open>A container whose pool holds the string \<open>Code\<close> at index 1, and two class
  files: one with three methods, the second of which has an attribute whose name index
  is out of range, and one with a pool of five slots (the string \<open>Code\<close>, a \<open>Long\<close> in
  slots 2 and 3, a class reference) and one method with a \<open>Code\<close> attribute and one
  other attribute; \<open>sample_ClassFile\<close> is the container the last one is decoded to.\<close>

definition pool_with_Code :: ClassFile where
  "pool_with_Code = zero_ClassFile\<lparr>constant_pool_count := 2,
     constant_pool := [zero_cp_info, \<lparr>tag = CONSTANT_Utf8, info = Utf8_info 4 Code_literal\<rparr>]\<rparr>"

definition three_methods :: "u8 list" where
  "three_methods =
     [0xCA, 0xFE, 0xBA, 0xBE, 0, 0, 0, 0x34, 0, 1,
      0, 0x21, 0, 0, 0, 0, 0, 0, 0, 0, 0, 3,
      0, 1, 0, 0, 0, 0, 0, 0,
      0, 1, 0, 0, 0, 0, 0, 2, 0, 0, 0, 0, 0, 1, 0xAA, 0, 5, 0, 0, 0, 0,
      0, 1, 0, 0, 0, 0, 0, 0]"

definition sample_class :: "u8 list" where
  "sample_class =
     [0xCA, 0xFE, 0xBA, 0xBE, 0, 0, 0, 0x34, 0, 5,
      1, 0, 4, 0x43, 0x6F, 0x64, 0x65,
      5, 0, 0, 0, 0, 0, 0, 0, 0x2A,
      7, 0, 1,
      0, 0x21, 0, 4, 0, 0, 0, 0, 0, 0, 0, 1,
      0, 1, 0, 1, 0, 1, 0, 2,
      0, 1, 0, 0, 0, 13, 0, 2, 0, 1, 0, 0, 0, 1, 0xB1, 0, 0, 0, 0,
      0, 4, 0, 0, 0, 2, 0xAA, 0xBB]"

definition sample_ClassFile :: ClassFile where
  "sample_ClassFile =
     \<lparr>magic = 0xCAFEBABE, minor_version = 0, major_version = 52, constant_pool_count = 5,
      constant_pool =
        [zero_cp_info,
         \<lparr>tag = CONSTANT_Utf8, info = Utf8_info 4 Code_literal\<rparr>,
         \<lparr>tag = CONSTANT_Long, info = Long_info 0 42\<rparr>,
         zero_cp_info,
         \<lparr>tag = CONSTANT_Class, info = Class_info 1\<rparr>],
      access_flags = 33, this_class = 4, super_class = 0, interfaces_count = 0,
      fields_count = 0, methods_count = 1,
      methods =
        [\<lparr>method_access_flags = 1, name_index = 1, descriptor_index = 1,
          attributes_count = 2,
          code_attribute =
            Some \<lparr>max_stack = 2, max_locals = 1, code_length = 1, code = [0xB1]\<rparr>\<rparr>]\<rparr>"



section \<open>Properties of the decoder\<close>

text \<open>The equations that evaluate the decoder on a given file.\<close>

lemma replicate_numeral:
  "replicate (numeral k) x = x # replicate (pred_numeral k) x"
  by (simp add: numeral_eq_Suc)

lemmas decode_eval =
  replicate_numeral
  read_before_methods_def read_magic_def read_version_def read_constant_pool_count_def
  read_constant_pool_def read_constant_pool_from.simps read_constant_pool_entry_def
  cp_switch_def read_class_header_def skip_interfaces_def skip_fields_def
  skip_fields_from.simps skip_field_def skip_field_attributes.simps skip_field_attribute_def
  read_methods_count_def read_methods_def read_methods_from.simps read_method_def
  read_method_attributes.simps read_method_attribute_def read_code_attribute_def
  skip_code_tail_def skip_code_sub_attributes.simps skip_code_sub_attribute_def
  read_u1_eq read_u2_eq read_u4_eq safe_fread_def fseek_cur_def fopen_def
  bswap16_def bswap32_def is_Code_name_def c_string_def Code_literal_def CONSTANT_defs
  JAVA_MAGIC_def MAX_STRING_LENGTH_def MAX_CONSTANT_POOL_SIZE_def
  zero_cp_info_def zero_ClassFile_def zero_method_info_def

lemma read_sample_class:
  "read_class_file (fopen sample_class) =
     (Inr sample_ClassFile, \<lparr>unread = [], position = 76\<rparr>)"
  by (simp add: sample_class_def sample_ClassFile_def read_class_file_def decode_eval)


subsection \<open>The magic number\<close>

text \<open>C8: when the first four bytes of the file are not \<open>CA FE BA BE\<close>,
  \<open>read_class_file\<close> fails with the message for an invalid magic number (the
  format mismatch of the specification), and the stream stands at position 4 when it
  fails: the four bytes of the magic number are all that was read.\<close>

theorem magic_mismatch_fails_after_four_bytes:
  assumes "[a, b, c, d] \<noteq> [0xCA, 0xFE, 0xBA, 0xBE]"
  shows "read_class_file (fopen (a # b # c # d # rest)) =
           (Inl Invalid_or_missing_magic_number, \<lparr>unread = rest, position = 4\<rparr>)"
  using assms
  by (simp add: read_class_file_def read_before_methods_def read_magic_def read_u4_eq
        fopen_def bswap32_magic)

theorem magic_mismatch_witness:
  "read_class_file (fopen [0x47, 0x49, 0x46, 0x38, 0x39, 0x61]) =
     (Inl Invalid_or_missing_magic_number, \<lparr>unread = [0x39, 0x61], position = 4\<rparr>)"
  using magic_mismatch_fails_after_four_bytes [of "0x47" "0x49" "0x46" "0x38" "[0x39, 0x61]"]
  by simp

subsection \<open>Entries of the constant pool\<close>

lemma cp_switch_default:
  "t \<notin> set switch_cases \<Longrightarrow> cp_switch t fp entry ok = (None, entry, ok, fp)"
  by (simp add: cp_switch_def switch_cases_def)

lemma read_constant_pool_entry_default:
  assumes "t \<notin> set switch_cases" and "unread fp = t # rest"
  shows "read_constant_pool_entry fp entry True =
           (1, entry\<lparr>tag := t\<rparr>, True, \<lparr>unread = rest, position = position fp + 1\<rparr>)"
  using assms by (simp add: read_constant_pool_entry_def read_u1_eq cp_switch_default)

text \<open>C6: for a tag byte \<open>t\<close> that has no case in the \<open>switch\<close>, the entry decoder
  reads the tag and nothing more, stores the tag in the entry and leaves the rest of
  the entry as it was, and returns 1 with \<open>*ok\<close> still true; the loop over the pool
  therefore goes on with the next index and the next byte.\<close>

theorem unknown_tag_tolerated:
  assumes "t \<notin> set switch_cases" and "unread fp = t # rest"
  shows "read_constant_pool_entry fp entry True =
           (1, entry\<lparr>tag := t\<rparr>, True, \<lparr>unread = rest, position = position fp + 1\<rparr>)
         \<and> (i < unat (constant_pool_count cf) \<longrightarrow>
            read_constant_pool_from i cf fp =
              read_constant_pool_from (i + 1)
                (cf\<lparr>constant_pool :=
                     (constant_pool cf)[i := (constant_pool cf ! i)\<lparr>tag := t\<rparr>]\<rparr>)
                \<lparr>unread = rest, position = position fp + 1\<rparr>)"
proof (intro conjI impI)
  show "read_constant_pool_entry fp entry True =
          (1, entry\<lparr>tag := t\<rparr>, True, \<lparr>unread = rest, position = position fp + 1\<rparr>)"
    using assms by (rule read_constant_pool_entry_default)
next
  assume "i < unat (constant_pool_count cf)"
  then show "read_constant_pool_from i cf fp =
      read_constant_pool_from (i + 1)
        (cf\<lparr>constant_pool := (constant_pool cf)[i := (constant_pool cf ! i)\<lparr>tag := t\<rparr>]\<rparr>)
        \<lparr>unread = rest, position = position fp + 1\<rparr>"
    by (subst read_constant_pool_from.simps)
       (simp add: read_constant_pool_entry_default [OF assms])
qed

theorem unknown_tag_witness:
  "read_constant_pool_entry \<lparr>unread = [0xFF, 7, 0, 1], position = 10\<rparr> zero_cp_info True =
     (1, \<lparr>tag = 0xFF, info = No_info\<rparr>, True, \<lparr>unread = [7, 0, 1], position = 11\<rparr>)
   \<and> read_constant_pool_from 1
       (zero_ClassFile\<lparr>constant_pool_count := 3,
          constant_pool := [zero_cp_info, zero_cp_info, zero_cp_info]\<rparr>)
       \<lparr>unread = [0xFF, 7, 0, 1], position = 10\<rparr> =
     (Inr (zero_ClassFile\<lparr>constant_pool_count := 3,
          constant_pool := [zero_cp_info, \<lparr>tag = 0xFF, info = No_info\<rparr>,
                            \<lparr>tag = 7, info = Class_info 1\<rparr>]\<rparr>),
      \<lparr>unread = [], position = 14\<rparr>)"
  using unknown_tag_tolerated [of "0xFF" "\<lparr>unread = [0xFF, 7, 0, 1], position = 10\<rparr>"
      "[7, 0, 1]" zero_cp_info 1
      "zero_ClassFile\<lparr>constant_pool_count := 3,
          constant_pool := [zero_cp_info, zero_cp_info, zero_cp_info]\<rparr>"]
  by (simp add: switch_cases_def CONSTANT_defs zero_cp_info_def zero_ClassFile_def
        read_constant_pool_from.simps
        read_constant_pool_entry_def read_u1_eq read_u2_eq cp_switch_def bswap16_def)

text \<open>The entries of fixed shape that have a case in the \<open>switch\<close>: with the payload
  there, the decoder reads the tag and exactly 2, 4 or 8 bytes of payload, in the
  order of the fields of the entry.\<close>

lemma two_byte_entries:
  assumes "t = CONSTANT_Class \<or> t = CONSTANT_String" and "unread fp = t # a # b # rest"
  shows "read_constant_pool_entry fp entry True =
           (1, entry\<lparr>tag := t,
                 info := (if t = CONSTANT_Class then Class_info (bswap16 a b)
                          else String_info (bswap16 a b))\<rparr>,
            True, \<lparr>unread = rest, position = position fp + 3\<rparr>)"
  using assms
  by (auto simp add: read_constant_pool_entry_def read_u1_eq read_u2_eq cp_switch_def
        CONSTANT_defs)

lemma integer_entry:
  assumes "unread fp = CONSTANT_Integer # a # b # c # d # rest"
  shows "read_constant_pool_entry fp entry True =
           (1, entry\<lparr>tag := CONSTANT_Integer, info := Integer_info (bswap32 a b c d)\<rparr>,
            True, \<lparr>unread = rest, position = position fp + 5\<rparr>)"
  using assms
  by (simp add: read_constant_pool_entry_def read_u1_eq read_u4_eq cp_switch_def
        CONSTANT_defs)

lemma two_index_entries:
  assumes "t = CONSTANT_Fieldref \<or> t = CONSTANT_Methodref
           \<or> t = CONSTANT_InterfaceMethodref \<or> t = CONSTANT_NameAndType"
    and "unread fp = t # a # b # c # d # rest"
  shows "read_constant_pool_entry fp entry True =
           (1, entry\<lparr>tag := t,
                 info := (if t = CONSTANT_NameAndType
                          then Nameandtype_info (bswap16 a b) (bswap16 c d)
                          else Methodref_info (bswap16 a b) (bswap16 c d))\<rparr>,
            True, \<lparr>unread = rest, position = position fp + 5\<rparr>)"
  using assms
  by (auto simp add: read_constant_pool_entry_def read_u1_eq read_u2_eq cp_switch_def
        CONSTANT_defs)

lemma eight_byte_entries:
  assumes "t = CONSTANT_Long \<or> t = CONSTANT_Double"
    and "unread fp = t # a # b # c # d # e # f # g # h # rest"
  shows "read_constant_pool_entry fp entry True =
           (2, entry\<lparr>tag := t, info := Long_info (bswap32 a b c d) (bswap32 e f g h)\<rparr>,
            True, \<lparr>unread = rest, position = position fp + 9\<rparr>)"
  using assms
  by (auto simp add: read_constant_pool_entry_def read_u1_eq read_u4_eq cp_switch_def
        CONSTANT_defs)

text \<open>C4: \<open>CONSTANT_Float\<close>, the second 4-byte numeric tag of diyjvm.h, has no case
  in the \<open>switch\<close>. On a \<open>Float\<close> entry with its four payload bytes the decoder
  reads the tag only: it returns 1 with the entry holding no payload, and the four
  bytes are still unread, to be taken for the next entries of the pool.\<close>

theorem float_entry_payload_not_read:
  "read_constant_pool_entry (fopen [CONSTANT_Float, 0x3F, 0x80, 0, 0]) zero_cp_info True =
     (1, \<lparr>tag = CONSTANT_Float, info = No_info\<rparr>, True,
      \<lparr>unread = [0x3F, 0x80, 0, 0], position = 1\<rparr>)"
  by (simp add: read_constant_pool_entry_def read_u1_eq cp_switch_def fopen_def
        CONSTANT_defs zero_cp_info_def)

subsection \<open>Attributes of a method\<close>


lemma read_method_attribute_header:
  assumes "unread file = n1 # n0 # l3 # l2 # l1 # l0 # payload"
  shows "read_method_attribute cf method file =
     (let file' = \<lparr>unread = payload, position = position file + 6\<rparr> in
      if unat (bswap16 n1 n0) < unat (constant_pool_count cf) then
        if is_Code_name (constant_pool cf ! unat (bswap16 n1 n0))
        then read_code_attribute method file'
        else (Inr method,
              \<lparr>unread = drop (unat (bswap32 l3 l2 l1 l0)) payload,
               position = position file + 6 + unat (bswap32 l3 l2 l1 l0)\<rparr>)
      else (Inl Attribute_name_index_out_of_range, file'))"
  using assms
  by (simp add: read_method_attribute_def read_u2_eq read_u4_eq fseek_cur_def Let_def
        add.commute)



text \<open>C10: for an attribute that is decoded as \<open>Code\<close>, the result is that of the
  \<open>Code\<close> branch on the bytes after the six header bytes, whatever the four bytes of
  \<open>attr_length\<close> are: two inputs that differ in these four bytes only give the same
  method record (or the same error) and the same stream, for the attribute and for the
  rest of the loop over the attributes of the method.\<close>

theorem code_attribute_ignores_declared_length:
  assumes "unat (bswap16 n1 n0) < unat (constant_pool_count cf)"
    and "is_Code_name (constant_pool cf ! unat (bswap16 n1 n0))"
  shows "read_method_attribute cf method
           \<lparr>unread = n1 # n0 # l3 # l2 # l1 # l0 # payload, position = p\<rparr> =
         read_code_attribute method \<lparr>unread = payload, position = p + 6\<rparr>
       \<and> read_method_attribute cf method
           \<lparr>unread = n1 # n0 # l3 # l2 # l1 # l0 # payload, position = p\<rparr> =
         read_method_attribute cf method
           \<lparr>unread = n1 # n0 # l3' # l2' # l1' # l0' # payload, position = p\<rparr>
       \<and> (j < unat (attributes_count method) \<longrightarrow>
          read_method_attributes j cf method
            \<lparr>unread = n1 # n0 # l3 # l2 # l1 # l0 # payload, position = p\<rparr> =
          read_method_attributes j cf method
            \<lparr>unread = n1 # n0 # l3' # l2' # l1' # l0' # payload, position = p\<rparr>)"
proof -
  have h: "read_method_attribute cf method
           \<lparr>unread = n1 # n0 # a # b # c # d # payload, position = p\<rparr> =
         read_code_attribute method \<lparr>unread = payload, position = p + 6\<rparr>" for a b c d
    using assms by (simp add: read_method_attribute_header)
  show ?thesis
    by (simp add: h read_method_attributes.simps [of j])
qed

theorem declared_length_witness:
  "read_method_attribute pool_with_Code (zero_method_info\<lparr>attributes_count := 1\<rparr>)
     (fopen [0, 1, 0, 0, 0, 13, 0, 2, 0, 1, 0, 0, 0, 1, 0xB1, 0, 0, 0, 0]) =
   read_method_attribute pool_with_Code (zero_method_info\<lparr>attributes_count := 1\<rparr>)
     (fopen [0, 1, 0xFF, 0xFF, 0xFF, 0xFF, 0, 2, 0, 1, 0, 0, 0, 1, 0xB1, 0, 0, 0, 0])
   \<and> read_method_attributes 0 pool_with_Code (zero_method_info\<lparr>attributes_count := 1\<rparr>)
     (fopen [0, 1, 0, 0, 0, 13, 0, 2, 0, 1, 0, 0, 0, 1, 0xB1, 0, 0, 0, 0]) =
   read_method_attributes 0 pool_with_Code (zero_method_info\<lparr>attributes_count := 1\<rparr>)
     (fopen [0, 1, 0xFF, 0xFF, 0xFF, 0xFF, 0, 2, 0, 1, 0, 0, 0, 1, 0xB1, 0, 0, 0, 0])
   \<and> read_method_attributes 0 pool_with_Code (zero_method_info\<lparr>attributes_count := 1\<rparr>)
     (fopen [0, 1, 0xFF, 0xFF, 0xFF, 0xFF, 0, 2, 0, 1, 0, 0, 0, 1, 0xB1, 0, 0, 0, 0]) =
     (Inr (zero_method_info\<lparr>attributes_count := 1, code_attribute :=
        Some \<lparr>max_stack = 2, max_locals = 1, code_length = 1, code = [0xB1]\<rparr>\<rparr>),
      \<lparr>unread = [], position = 19\<rparr>)"
  using code_attribute_ignores_declared_length
    [of 0 1 pool_with_Code "zero_method_info\<lparr>attributes_count := 1\<rparr>" 0 0 0 13
        "[0, 2, 0, 1, 0, 0, 0, 1, 0xB1, 0, 0, 0, 0]" 0 "0xFF" "0xFF" "0xFF" "0xFF" 0]
  by (simp add: pool_with_Code_def decode_eval read_method_attributes.simps)

lemma attributes_after_loop:
  "attributes_after n cf m fp = Some (m', fp') \<Longrightarrow>
   j + n \<le> unat (attributes_count m) \<Longrightarrow>
   attributes_count m' = attributes_count m \<and>
   read_method_attributes j cf m fp = read_method_attributes (j + n) cf m' fp'"
proof (induction n arbitrary: j m fp)
  case 0
  then show ?case by simp
next
  case (Suc n)
  from Suc.prems(1) obtain m1 f1 where
    step: "read_method_attribute cf m fp = (Inr m1, f1)"
    and rest: "attributes_after n cf m1 f1 = Some (m', fp')"
    by (auto split: prod.splits sum.splits)
  have cnt: "attributes_count m1 = attributes_count m"
    using step by (rule read_method_attribute_attributes_count)
  from Suc.IH [OF rest, of "j + 1"] Suc.prems(2) cnt
  have "attributes_count m' = attributes_count m"
    and "read_method_attributes (j + 1) cf m1 f1 =
         read_method_attributes (j + 1 + n) cf m' fp'"
    by simp_all
  moreover have "read_method_attributes j cf m fp =
      read_method_attributes (j + 1) cf m1 f1"
    using Suc.prems(2) by (subst read_method_attributes.simps) (simp add: step)
  ultimately show ?case by simp
qed

lemma methods_after_loop:
  "methods_after n i cf fp = Some (cf', fp') \<Longrightarrow>
   i + n \<le> unat (methods_count cf) \<Longrightarrow>
   methods_count cf' = methods_count cf \<and>
   constant_pool_count cf' = constant_pool_count cf \<and>
   constant_pool cf' = constant_pool cf \<and>
   read_methods_from i cf fp = read_methods_from (i + n) cf' fp'"
proof (induction n arbitrary: i cf fp)
  case 0
  then show ?case by simp
next
  case (Suc n)
  from Suc.prems(1) obtain m1 f1 where
    step: "read_method cf (methods cf ! i) fp = (Inr m1, f1)"
    and rest: "methods_after n (i + 1) (cf\<lparr>methods := (methods cf)[i := m1]\<rparr>) f1
                 = Some (cf', fp')"
    by (auto split: prod.splits sum.splits)
  from Suc.IH [OF rest] Suc.prems(2)
  have "methods_count cf' = methods_count cf"
    and "constant_pool_count cf' = constant_pool_count cf"
    and "constant_pool cf' = constant_pool cf"
    and "read_methods_from (i + 1) (cf\<lparr>methods := (methods cf)[i := m1]\<rparr>) f1 =
         read_methods_from (i + 1 + n) cf' fp'"
    by simp_all
  moreover have "read_methods_from i cf fp =
      read_methods_from (i + 1) (cf\<lparr>methods := (methods cf)[i := m1]\<rparr>) f1"
    using Suc.prems(2) by (subst read_methods_from.simps) (simp add: step)
  ultimately show ?case by simp
qed

lemma read_method_header:
  assumes "unread file = a1 # a0 # b1 # b0 # c1 # c0 # d1 # d0 # u"
  shows "read_method cf method file =
           read_method_attributes 0 cf
             (method\<lparr>method_access_flags := bswap16 a1 a0, name_index := bswap16 b1 b0,
                descriptor_index := bswap16 c1 c0, attributes_count := bswap16 d1 d0\<rparr>)
             \<lparr>unread = u, position = position file + 8\<rparr>"
  using assms
  by (simp add: read_method_def read_u2_eq Let_def add.commute
        del: add_2_eq_Suc add_2_eq_Suc')

lemma name_index_not_below_count_is_fatal:
  assumes "read_before_methods file0 = (Inr cf0, f0)"
    and "methods_after i 0 cf0 f0 = Some (cf, f)"
    and "i < unat (methods_count cf0)"
    and "unread f = a1 # a0 # b1 # b0 # c1 # c0 # d1 # d0 # u"
    and "attributes_after j cf
           ((methods cf ! i)\<lparr>method_access_flags := bswap16 a1 a0, name_index := bswap16 b1 b0,
              descriptor_index := bswap16 c1 c0, attributes_count := bswap16 d1 d0\<rparr>)
           \<lparr>unread = u, position = position f + 8\<rparr> = Some (method, file)"
    and "j < unat (bswap16 d1 d0)"
    and "unread file = n1 # n0 # l3 # l2 # l1 # l0 # payload"
    and "\<not> unat (bswap16 n1 n0) < unat (constant_pool_count cf)"
  shows "read_method_attribute cf method file =
           (Inl Attribute_name_index_out_of_range,
            \<lparr>unread = payload, position = position file + 6\<rparr>)
       \<and> read_class_file file0 =
           (Inl Attribute_name_index_out_of_range,
            \<lparr>unread = payload, position = position file + 6\<rparr>)"
proof -
  let ?e = "(Inl Attribute_name_index_out_of_range,
            \<lparr>unread = payload, position = position file + 6\<rparr>) :: method_info result"
  let ?m = "(methods cf ! i)\<lparr>method_access_flags := bswap16 a1 a0, name_index := bswap16 b1 b0,
              descriptor_index := bswap16 c1 c0, attributes_count := bswap16 d1 d0\<rparr>"
  have a: "read_method_attribute cf method file = ?e"
    using assms(8) by (simp add: read_method_attribute_header [OF assms(7)])
  from attributes_after_loop [OF assms(5), of 0] assms(6)
  have cnt: "attributes_count method = bswap16 d1 d0"
    and l: "read_method_attributes 0 cf ?m \<lparr>unread = u, position = position f + 8\<rparr> =
            read_method_attributes j cf method file"
    by simp_all
  have "read_method_attributes j cf method file = (Inl Attribute_name_index_out_of_range,
            \<lparr>unread = payload, position = position file + 6\<rparr>)"
    using assms(6) cnt by (subst read_method_attributes.simps) (simp add: a)
  then have m: "read_method cf (methods cf ! i) f = (Inl Attribute_name_index_out_of_range,
            \<lparr>unread = payload, position = position file + 6\<rparr>)"
    by (simp add: read_method_header [OF assms(4)] l)
  from methods_after_loop [OF assms(2), of ] assms(3)
  have mc: "methods_count cf = methods_count cf0"
    and ml: "read_methods_from 0 cf0 f0 = read_methods_from i cf f"
    by simp_all
  have "read_methods_from i cf f = (Inl Attribute_name_index_out_of_range,
            \<lparr>unread = payload, position = position file + 6\<rparr>)"
    using assms(3) mc by (subst read_methods_from.simps) (simp add: m)
  then have "read_class_file file0 = (Inl Attribute_name_index_out_of_range,
            \<lparr>unread = payload, position = position file + 6\<rparr>)"
    by (simp add: read_class_file_def assms(1) read_methods_def ml)
  with a show ?thesis by simp
qed

text \<open>C5 (as amended): let the decoder have read everything before the methods, then
  \<open>i\<close> whole methods, then the header of the next method (which need not be the last
  one) and \<open>j\<close> of its attributes, all without error. If the next attribute has a name
  index that is not below \<open>constant_pool_count\<close>, decoding that attribute fails with the
  message for an index out of range, and so does \<open>read_class_file\<close> on the whole file:
  nothing after the six header bytes of the attribute is read. The range the code tests
  is the size of the table: a name index below \<open>constant_pool_count\<close> that points at a
  slot which was never filled (slot 0, the slot after a \<open>Long\<close> or \<open>Double\<close>) is not
  out of range for it, and such an attribute is skipped by its \<open>attr_length\<close>.\<close>

theorem attribute_name_index_out_of_range_is_fatal:
  assumes "read_before_methods file0 = (Inr cf0, f0)"
    and "methods_after i 0 cf0 f0 = Some (cf, f)"
    and "i < unat (methods_count cf0)"
    and "unread f = a1 # a0 # b1 # b0 # c1 # c0 # d1 # d0 # u"
    and "attributes_after j cf
           ((methods cf ! i)\<lparr>method_access_flags := bswap16 a1 a0, name_index := bswap16 b1 b0,
              descriptor_index := bswap16 c1 c0, attributes_count := bswap16 d1 d0\<rparr>)
           \<lparr>unread = u, position = position f + 8\<rparr> = Some (method, file)"
    and "j < unat (bswap16 d1 d0)"
    and "unread file = n1 # n0 # l3 # l2 # l1 # l0 # payload"
    and "\<not> unat (bswap16 n1 n0) < unat (constant_pool_count cf)"
  shows "read_method_attribute cf method file =
           (Inl Attribute_name_index_out_of_range,
            \<lparr>unread = payload, position = position file + 6\<rparr>)
       \<and> read_class_file file0 =
           (Inl Attribute_name_index_out_of_range,
            \<lparr>unread = payload, position = position file + 6\<rparr>)
       \<and> (unread fp = t1 # t0 # v3 # v2 # v1 # v0 # rest \<and>
          unat (bswap16 t1 t0) < unat (constant_pool_count cf') \<and>
          constant_pool cf' ! unat (bswap16 t1 t0) = zero_cp_info \<longrightarrow>
          read_method_attribute cf' method' fp =
            (Inr method',
             \<lparr>unread = drop (unat (bswap32 v3 v2 v1 v0)) rest,
              position = position fp + 6 + unat (bswap32 v3 v2 v1 v0)\<rparr>))"
proof (intro conjI impI)
  note f = name_index_not_below_count_is_fatal [OF assms]
  from f show "read_method_attribute cf method file =
           (Inl Attribute_name_index_out_of_range,
            \<lparr>unread = payload, position = position file + 6\<rparr>)"
    by (rule conjunct1)
  from f show "read_class_file file0 =
           (Inl Attribute_name_index_out_of_range,
            \<lparr>unread = payload, position = position file + 6\<rparr>)"
    by (rule conjunct2)
next
  assume a: "unread fp = t1 # t0 # v3 # v2 # v1 # v0 # rest \<and>
          unat (bswap16 t1 t0) < unat (constant_pool_count cf') \<and>
          constant_pool cf' ! unat (bswap16 t1 t0) = zero_cp_info"
  have "\<not> is_Code_name zero_cp_info"
    by (simp add: is_Code_name_def zero_cp_info_def CONSTANT_defs)
  with a show "read_method_attribute cf' method' fp =
            (Inr method',
             \<lparr>unread = drop (unat (bswap32 v3 v2 v1 v0)) rest,
              position = position fp + 6 + unat (bswap32 v3 v2 v1 v0)\<rparr>)"
    by (simp add: read_method_attribute_header [of fp t1 t0 v3 v2 v1 v0 rest])
qed

theorem attribute_name_index_out_of_range_witness:
  "read_class_file (fopen three_methods) =
     (Inl Attribute_name_index_out_of_range,
      \<lparr>unread = [0, 1, 0, 0, 0, 0, 0, 0], position = 51\<rparr>)
   \<and> read_method_attribute sample_ClassFile zero_method_info
       \<lparr>unread = [0, 3, 0, 0, 0, 2, 0xAA, 0xBB, 0x77], position = 68\<rparr> =
     (Inr zero_method_info, \<lparr>unread = [0x77], position = 76\<rparr>)"
proof -
  let ?before = "\<lparr>magic = 0xCAFEBABE, minor_version = 0, major_version = 52,
      constant_pool_count = 1, constant_pool = [zero_cp_info],
      access_flags = 33, this_class = 0, super_class = 0,
      interfaces_count = 0, fields_count = 0, methods_count = 3,
      methods = [zero_method_info, zero_method_info, zero_method_info]\<rparr>"
  let ?start = "\<lparr>unread = [0, 1, 0, 0, 0, 0, 0, 0,
      0, 1, 0, 0, 0, 0, 0, 2, 0, 0, 0, 0, 0, 1, 0xAA, 0, 5, 0, 0, 0, 0,
      0, 1, 0, 0, 0, 0, 0, 0], position = 22\<rparr>"
  let ?cf_i = "?before\<lparr>methods := [zero_method_info\<lparr>method_access_flags := 1\<rparr>,
      zero_method_info, zero_method_info]\<rparr>"
  let ?f_i = "\<lparr>unread = [0, 1, 0, 0, 0, 0, 0, 2, 0, 0, 0, 0, 0, 1, 0xAA, 0, 5, 0, 0, 0, 0,
      0, 1, 0, 0, 0, 0, 0, 0], position = 30\<rparr>"
  let ?m = "zero_method_info\<lparr>method_access_flags := 1, attributes_count := 2\<rparr>"
  let ?file = "\<lparr>unread = [0, 5, 0, 0, 0, 0, 0, 1, 0, 0, 0, 0, 0, 0], position = 45\<rparr>"
  have 1: "read_before_methods (fopen three_methods) = (Inr ?before, ?start)"
    by (simp add: three_methods_def decode_eval)
  have 2: "methods_after 1 0 ?before ?start = Some (?cf_i, ?f_i)"
    by (simp add: decode_eval)
  have 3: "1 < unat (methods_count ?before)"
    by simp
  have 4: "unread ?f_i = 0 # 1 # 0 # 0 # 0 # 0 # 0 # 2 #
      [0, 0, 0, 0, 0, 1, 0xAA, 0, 5, 0, 0, 0, 0, 0, 1, 0, 0, 0, 0, 0, 0]"
    by simp
  have 5: "attributes_after 1 ?cf_i
      ((methods ?cf_i ! 1)\<lparr>method_access_flags := bswap16 0 1, name_index := bswap16 0 0,
         descriptor_index := bswap16 0 0, attributes_count := bswap16 0 2\<rparr>)
      \<lparr>unread = [0, 0, 0, 0, 0, 1, 0xAA, 0, 5, 0, 0, 0, 0, 0, 1, 0, 0, 0, 0, 0, 0],
       position = position ?f_i + 8\<rparr> = Some (?m, ?file)"
    by (simp add: decode_eval)
  have 6: "1 < unat (bswap16 0 2)"
    by (simp add: bswap16_def)
  have 7: "unread ?file = 0 # 5 # 0 # 0 # 0 # 0 # [0, 1, 0, 0, 0, 0, 0, 0]"
    by simp
  have 8: "\<not> unat (bswap16 0 5) < unat (constant_pool_count ?cf_i)"
    by (simp add: bswap16_def)
  note th = attribute_name_index_out_of_range_is_fatal [OF 1 2 3 4 5 6 7 8]
  have a: "read_class_file (fopen three_methods) =
     (Inl Attribute_name_index_out_of_range,
      \<lparr>unread = [0, 1, 0, 0, 0, 0, 0, 0], position = 51\<rparr>)"
    using th [THEN conjunct2, THEN conjunct1] by simp
  have b: "read_method_attribute sample_ClassFile zero_method_info
       \<lparr>unread = [0, 3, 0, 0, 0, 2, 0xAA, 0xBB, 0x77], position = 68\<rparr> =
     (Inr zero_method_info, \<lparr>unread = [0x77], position = 76\<rparr>)"
    using th [THEN conjunct2, THEN conjunct2,
      of "\<lparr>unread = [0, 3, 0, 0, 0, 2, 0xAA, 0xBB, 0x77], position = 68\<rparr>"
         0 3 0 0 0 2 "[0xAA, 0xBB, 0x77]" sample_ClassFile zero_method_info]
    by (simp add: sample_ClassFile_def bswap16_def bswap32_def)
  from a b show ?thesis by simp
qed

text \<open>The sample file with the name index of its last attribute set to 0, or to 3
  (the slot after the \<open>Long\<close>): both indices point at slots that were never filled, and
  both files are decoded without error, to the container of the sample file.\<close>

theorem unpopulated_name_index_counterexample:
  "constant_pool sample_ClassFile ! 0 = zero_cp_info
   \<and> constant_pool sample_ClassFile ! 3 = zero_cp_info
   \<and> read_class_file (fopen (take 69 sample_class @ 0 # drop 70 sample_class)) =
     (Inr sample_ClassFile, \<lparr>unread = [], position = 76\<rparr>)
   \<and> read_class_file (fopen (take 69 sample_class @ 3 # drop 70 sample_class)) =
     (Inr sample_ClassFile, \<lparr>unread = [], position = 76\<rparr>)"
  by (simp add: sample_class_def sample_ClassFile_def read_class_file_def decode_eval)

subsection \<open>The code block of a method\<close>










subsection \<open>The constant pool of a decoded file\<close>

text \<open>What the switch returns when it leaves \<open>*ok\<close> true, and the length of the
  string it stores.\<close>

lemma cp_switch_step:
  assumes "cp_switch t fp entry True = (r, entry', True, fp')"
  shows "(t = CONSTANT_Long \<or> t = CONSTANT_Double \<longrightarrow> r = Some 2) \<and>
         (\<not> (t = CONSTANT_Long \<or> t = CONSTANT_Double) \<longrightarrow> r = None) \<and>
         tag entry' = tag entry"
  using assms
  by (simp add: cp_switch_def read_u2_eq read_u4_eq safe_fread_def Let_def CONSTANT_defs
        split: if_splits) auto

lemma cp_switch_utf8_length:
  assumes "cp_switch t fp entry True = (r, entry', True, fp')"
    and "info entry = No_info" and "info entry' = Utf8_info len bs"
  shows "length bs = unat len"
  using assms
  by (simp add: cp_switch_def read_u2_eq read_u4_eq safe_fread_def Let_def CONSTANT_defs
        split: if_splits) auto

lemma read_constant_pool_entry_ok:
  assumes "read_constant_pool_entry fp entry True = (step, entry', True, fp')"
    and "step \<noteq> 0"
  shows "step = (if tag entry' = CONSTANT_Long \<or> tag entry' = CONSTANT_Double then 2 else 1)
         \<and> (info entry = No_info \<longrightarrow> (\<forall>len bs. info entry' = Utf8_info len bs \<longrightarrow> length bs = unat len))"
proof -
  from assms obtain t rest where u: "unread fp = t # rest"
    by (cases "unread fp") (auto simp: read_constant_pool_entry_def read_u1_eq)
  let ?fp = "\<lparr>unread = rest, position = position fp + 1\<rparr>"
  obtain r e1 ok1 f1 where s: "cp_switch t ?fp (entry\<lparr>tag := t\<rparr>) True = (r, e1, ok1, f1)"
    by (cases "cp_switch t ?fp (entry\<lparr>tag := t\<rparr>) True") auto
  from assms u s have ok1: "ok1" and e: "entry' = e1" and f: "fp' = f1"
    and st: "step = (case r of Some n \<Rightarrow> n | None \<Rightarrow> 1)"
    by (auto simp: read_constant_pool_entry_def read_u1_eq split: option.splits if_splits)
  from cp_switch_step [OF s [unfolded ok1 [THEN eqTrueI]]]
  have "(t = CONSTANT_Long \<or> t = CONSTANT_Double \<longrightarrow> r = Some 2)"
    and "(\<not> (t = CONSTANT_Long \<or> t = CONSTANT_Double) \<longrightarrow> r = None)"
    and "tag e1 = t"
    by simp_all
  then have 1: "step = (if tag entry' = CONSTANT_Long \<or> tag entry' = CONSTANT_Double then 2 else 1)"
    using st e by auto
  have 2: "length bs = unat len" if "info entry = No_info" "info entry' = Utf8_info len bs" for len bs
    using cp_switch_utf8_length [OF s [unfolded ok1 [THEN eqTrueI]], of len bs] that e by simp
  from 1 2 show ?thesis by blast
qed


lemma pool_inv_step:
  assumes inv: "pool_inv i cf" and i: "i < unat (constant_pool_count cf)"
    and r: "read_constant_pool_entry fp (constant_pool cf ! i) True = (step, entry, True, fp')"
    and s: "step \<noteq> 0"
  shows "pool_inv (i + step) (cf\<lparr>constant_pool := (constant_pool cf)[i := entry]\<rparr>)"
proof -
  let ?p = "constant_pool cf" and ?q = "(constant_pool cf)[i := entry]"
  from inv have len: "length ?p = unat (constant_pool_count cf)" and i1: "1 \<le> i"
    and z: "\<And>j. j < length ?p \<Longrightarrow> j = 0 \<or> i \<le> j \<Longrightarrow> ?p ! j = zero_cp_info"
    and w: "\<And>j. j < length ?p \<Longrightarrow> j < i \<Longrightarrow>
        tag (?p ! j) = CONSTANT_Long \<or> tag (?p ! j) = CONSTANT_Double \<Longrightarrow>
        j + 2 \<le> i \<and> (j + 1 < length ?p \<longrightarrow> ?p ! (j + 1) = zero_cp_info)"
    and u: "\<And>j len bs. j < length ?p \<Longrightarrow> info (?p ! j) = Utf8_info len bs \<Longrightarrow>
        length bs = unat len"
    unfolding pool_inv_def by blast+
  have zi: "?p ! i = zero_cp_info" using z [of i] i len by simp
  from read_constant_pool_entry_ok [OF r s]
  have st: "step = (if tag entry = CONSTANT_Long \<or> tag entry = CONSTANT_Double then 2 else 1)"
    and ue: "\<And>len bs. info entry = Utf8_info len bs \<Longrightarrow> length bs = unat len"
    by (simp_all add: zi zero_cp_info_def)
  have ztag: "tag zero_cp_info \<noteq> CONSTANT_Long" "tag zero_cp_info \<noteq> CONSTANT_Double"
    by (simp_all add: zero_cp_info_def CONSTANT_defs)
  have a: "?q ! j = zero_cp_info" if "j < length ?q" "j = 0 \<or> i + step \<le> j" for j
  proof -
    from that s i1 have "j \<noteq> i" by auto
    moreover from that s have "j = 0 \<or> i \<le> j" by auto
    ultimately show ?thesis using z [of j] that(1) by simp
  qed
  have b: "j + 2 \<le> i + step \<and> (j + 1 < length ?q \<longrightarrow> ?q ! (j + 1) = zero_cp_info)"
    if j: "j < length ?q" "j < i + step"
      and t: "tag (?q ! j) = CONSTANT_Long \<or> tag (?q ! j) = CONSTANT_Double" for j
  proof -
    have "j < i \<or> j = i \<or> (j = i + 1 \<and> step = 2)"
      using j(2) st by (auto split: if_splits)
    then consider "j < i" | "j = i" | "j = i + 1" "step = 2"
      by blast
    then show ?thesis
    proof cases
      case 1
      with t have "tag (?p ! j) = CONSTANT_Long \<or> tag (?p ! j) = CONSTANT_Double" by simp
      from w [OF _ 1 this] j(1)
      have "j + 2 \<le> i" and "j + 1 < length ?p \<longrightarrow> ?p ! (j + 1) = zero_cp_info" by simp_all
      then show ?thesis by simp
    next
      case 2
      with t j(1) have "tag entry = CONSTANT_Long \<or> tag entry = CONSTANT_Double" by simp
      with st have "step = 2" by simp
      moreover have "?p ! (i + 1) = zero_cp_info" if "i + 1 < length ?p"
        using z [of "i + 1"] that by simp
      ultimately show ?thesis using 2 by simp
    next
      case 3
      with j(1) have "?q ! j = zero_cp_info" using z [of "i + 1"] by simp
      with t ztag show ?thesis by simp
    qed
  qed
  have c: "length bs = unat len" if "j < length ?q" "info (?q ! j) = Utf8_info len bs" for j len bs
  proof (cases "j = i")
    case True
    with that show ?thesis using ue by simp
  next
    case False
    with that show ?thesis using u [of j len bs] by simp
  qed
  show ?thesis
    unfolding pool_inv_def using len i1 a b c by (simp del: One_nat_def)
qed

lemma read_constant_pool_from_inv:
  "read_constant_pool_from i cf fp = (Inr cf', fp') \<Longrightarrow> pool_inv i cf \<Longrightarrow>
   constant_pool_count cf' = constant_pool_count cf \<and>
   (\<exists>i'. unat (constant_pool_count cf') \<le> i' \<and> pool_inv i' cf')"
proof (induction i cf fp rule: read_constant_pool_from.induct)
  case (1 i cf fp)
  show ?case
  proof (cases "i < unat (constant_pool_count cf)")
    case False
    with "1.prems" show ?thesis
      by (subst (asm) read_constant_pool_from.simps) (auto intro: exI [of _ i])
  next
    case True
    obtain step entry ok f1 where
      r: "read_constant_pool_entry fp (constant_pool cf ! i) True = (step, entry, ok, f1)"
      by (cases "read_constant_pool_entry fp (constant_pool cf ! i) True") auto
    from "1.prems"(1) True r have ok: "ok" and s: "step \<noteq> 0"
      and rec: "read_constant_pool_from (i + step)
                  (cf\<lparr>constant_pool := (constant_pool cf)[i := entry]\<rparr>) f1 = (Inr cf', fp')"
      by (subst (asm) read_constant_pool_from.simps, simp split: if_splits)+
    from r ok have r': "read_constant_pool_entry fp (constant_pool cf ! i) True
                          = (step, entry, True, f1)" by simp
    have "pool_inv (i + step) (cf\<lparr>constant_pool := (constant_pool cf)[i := entry]\<rparr>)"
      using "1.prems"(2) True r' s by (rule pool_inv_step)
    from "1.IH" [OF True r [symmetric] refl refl _ rec this] ok s
    show ?thesis by auto
  qed
qed


lemma read_constant_pool_count_Inr:
  assumes "read_constant_pool_count cf fp = (Inr cf', fp')"
  shows "unat (constant_pool_count cf') \<le> MAX_CONSTANT_POOL_SIZE \<and> pool_inv 1 cf'"
  using assms
  by (auto simp add: read_constant_pool_count_def read_u2_eq Let_def pool_inv_def
        zero_cp_info_def CONSTANT_defs split: if_splits)

lemma read_class_header_Inr:
  "read_class_header cf fp = (Inr cf', fp') \<Longrightarrow> same_pool cf cf'"
  by (auto simp add: read_class_header_def read_u2_eq Let_def same_pool_def split: if_splits)

lemma skip_interfaces_Inr:
  "skip_interfaces cf fp = (Inr cf', fp') \<Longrightarrow> same_pool cf cf'"
  by (auto simp add: skip_interfaces_def read_u2_eq fseek_cur_def Let_def same_pool_def
        split: if_splits)

lemma skip_fields_from_Inr:
  "skip_fields_from i cf fp = (Inr cf', fp') \<Longrightarrow> cf' = cf"
proof (induction i cf fp rule: skip_fields_from.induct)
  case (1 i cf fp)
  from "1.prems" show ?case
    by (subst (asm) skip_fields_from.simps)
       (auto simp: andThen_Inr_iff dest: "1.IH" split: if_splits)
qed

lemma skip_fields_Inr:
  "skip_fields cf fp = (Inr cf', fp') \<Longrightarrow> same_pool cf cf'"
  by (auto simp add: skip_fields_def read_u2_eq Let_def same_pool_def
        dest!: skip_fields_from_Inr split: if_splits)

lemma read_methods_count_Inr:
  "read_methods_count cf fp = (Inr cf', fp') \<Longrightarrow>
   same_pool cf cf' \<and> unat (methods_count cf') \<le> 1000"
  by (auto simp add: read_methods_count_def read_u2_eq Let_def same_pool_def split: if_splits)

lemma read_methods_from_Inr:
  "read_methods_from i cf fp = (Inr cf', fp') \<Longrightarrow>
   same_pool cf cf' \<and> methods_count cf' = methods_count cf"
proof (induction i cf fp rule: read_methods_from.induct)
  case (1 i cf fp)
  show ?case
  proof (cases "i < unat (methods_count cf)")
    case False
    with "1.prems" show ?thesis
      by (subst (asm) read_methods_from.simps) (simp add: same_pool_def)
  next
    case True
    with "1.prems" obtain m f1 where
      r: "read_method cf (methods cf ! i) fp = (Inr m, f1)"
      and rec: "read_methods_from (i + 1) (cf\<lparr>methods := (methods cf)[i := m]\<rparr>) f1
                  = (Inr cf', fp')"
      by (subst (asm) read_methods_from.simps) (auto simp: andThen_Inr_iff)
    from "1.IH" [OF True r rec] show ?thesis
      by (simp add: same_pool_def)
  qed
qed

lemma same_pool_inv: "same_pool cf cf' \<Longrightarrow> pool_inv i cf \<Longrightarrow> pool_inv i cf'"
  by (simp add: same_pool_def pool_inv_def)

lemma read_class_file_Inr:
  assumes "read_class_file file = (Inr cf, file')"
  shows "unat (constant_pool_count cf) \<le> MAX_CONSTANT_POOL_SIZE \<and>
         unat (methods_count cf) \<le> 1000 \<and>
         (\<exists>i. unat (constant_pool_count cf) \<le> i \<and> pool_inv i cf)"
proof -
  from assms obtain c0 f0 c1 f1 c2 f2 c3 f3 c4 f4 c5 f5 c6 f6 c7 f7 where
    "read_magic zero_ClassFile file = (Inr c0, f0)"
    and "read_version c0 f0 = (Inr c1, f1)"
    and s2: "read_constant_pool_count c1 f1 = (Inr c2, f2)"
    and s3: "read_constant_pool c2 f2 = (Inr c3, f3)"
    and s4: "read_class_header c3 f3 = (Inr c4, f4)"
    and s5: "skip_interfaces c4 f4 = (Inr c5, f5)"
    and s6: "skip_fields c5 f5 = (Inr c6, f6)"
    and s7: "read_methods_count c6 f6 = (Inr c7, f7)"
    and s8: "read_methods c7 f7 = (Inr cf, file')"
    unfolding read_class_file_def read_before_methods_def andThen_Inr_iff by blast
  from read_constant_pool_count_Inr [OF s2]
  have m: "unat (constant_pool_count c2) \<le> MAX_CONSTANT_POOL_SIZE" and i2: "pool_inv 1 c2"
    by simp_all
  from read_constant_pool_from_inv [OF s3 [unfolded read_constant_pool_def] i2]
  obtain i where c: "constant_pool_count c3 = constant_pool_count c2"
    and i: "unat (constant_pool_count c3) \<le> i" and i3: "pool_inv i c3"
    by blast
  have p4: "same_pool c3 c4" using s4 by (rule read_class_header_Inr)
  have p5: "same_pool c4 c5" using s5 by (rule skip_interfaces_Inr)
  have p6: "same_pool c5 c6" using s6 by (rule skip_fields_Inr)
  from read_methods_count_Inr [OF s7]
  have p7: "same_pool c6 c7" and mc: "unat (methods_count c7) \<le> 1000" by simp_all
  from read_methods_from_Inr [OF s8 [unfolded read_methods_def]]
  have p8: "same_pool c7 cf" and mc': "methods_count cf = methods_count c7" by simp_all
  have "same_pool c3 cf"
    using p4 p5 p6 p7 p8 by (simp add: same_pool_def)
  then have "pool_inv i cf" and "constant_pool_count cf = constant_pool_count c3"
    using i3 by (simp_all add: same_pool_inv same_pool_def)
  with m c i mc mc' show ?thesis by auto
qed

lemma long_entry_slots:
  assumes "t = CONSTANT_Long \<or> t = CONSTANT_Double" and "unread fp = t # rest"
  shows "fst (read_constant_pool_entry fp entry True) = 2"
  using assms
  by (auto simp add: read_constant_pool_entry_def read_u1_eq read_u4_eq cp_switch_def
        CONSTANT_defs Let_def)

text \<open>C3: the entry decoder returns 2 for the tags \<open>Long\<close> and \<open>Double\<close>; the loop
  over the pool starts at index 1, goes from such an entry at index \<open>i\<close> to index
  \<open>i + 2\<close>, and ends when the index is not below \<open>constant_pool_count\<close>; and in every
  container that \<open>read_class_file\<close> returns, slot 0 of the pool is as \<open>calloc\<close> left it
  and so is the slot after every entry with the tag \<open>Long\<close> or \<open>Double\<close>.\<close>

theorem double_width_entries_take_two_slots:
  "(t = CONSTANT_Long \<or> t = CONSTANT_Double \<longrightarrow> unread fp = t # rest \<longrightarrow>
      fst (read_constant_pool_entry fp entry True) = 2)
   \<and> (t = CONSTANT_Long \<or> t = CONSTANT_Double \<longrightarrow>
      unread fp = t # a # b # c # d # e # f # g # h # rest' \<longrightarrow>
      i < unat (constant_pool_count cf0) \<longrightarrow>
      read_constant_pool_from i cf0 fp =
        read_constant_pool_from (i + 2)
          (cf0\<lparr>constant_pool := (constant_pool cf0)
                 [i := (constant_pool cf0 ! i)
                    \<lparr>tag := t, info := Long_info (bswap32 a b c d) (bswap32 e f g h)\<rparr>]\<rparr>)
          \<lparr>unread = rest', position = position fp + 9\<rparr>)
   \<and> read_constant_pool cf0 fp = read_constant_pool_from 1 cf0 fp
   \<and> (\<not> i < unat (constant_pool_count cf0) \<longrightarrow>
      read_constant_pool_from i cf0 fp = (Inr cf0, fp))
   \<and> (read_class_file file = (Inr cf, file') \<longrightarrow>
      length (constant_pool cf) = unat (constant_pool_count cf) \<and>
      (0 < unat (constant_pool_count cf) \<longrightarrow> constant_pool cf ! 0 = zero_cp_info) \<and>
      (\<forall>j. j + 1 < unat (constant_pool_count cf) \<and>
           (tag (constant_pool cf ! j) = CONSTANT_Long \<or>
            tag (constant_pool cf ! j) = CONSTANT_Double) \<longrightarrow>
           constant_pool cf ! (j + 1) = zero_cp_info))"
proof (intro conjI impI)
  assume "t = CONSTANT_Long \<or> t = CONSTANT_Double" and "unread fp = t # rest"
  then show "fst (read_constant_pool_entry fp entry True) = 2"
    by (rule long_entry_slots)
next
  assume t: "t = CONSTANT_Long \<or> t = CONSTANT_Double"
    and u: "unread fp = t # a # b # c # d # e # f # g # h # rest'"
    and i: "i < unat (constant_pool_count cf0)"
  show "read_constant_pool_from i cf0 fp =
        read_constant_pool_from (i + 2)
          (cf0\<lparr>constant_pool := (constant_pool cf0)
                 [i := (constant_pool cf0 ! i)
                    \<lparr>tag := t, info := Long_info (bswap32 a b c d) (bswap32 e f g h)\<rparr>]\<rparr>)
          \<lparr>unread = rest', position = position fp + 9\<rparr>"
    using i by (subst read_constant_pool_from.simps) (simp add: eight_byte_entries [OF t u])
next
  show "read_constant_pool cf0 fp = read_constant_pool_from 1 cf0 fp"
    by (simp add: read_constant_pool_def)
next
  assume "\<not> i < unat (constant_pool_count cf0)"
  then show "read_constant_pool_from i cf0 fp = (Inr cf0, fp)"
    by (subst read_constant_pool_from.simps) simp
next
  assume r: "read_class_file file = (Inr cf, file')"
  from read_class_file_Inr [OF r] obtain k where
    k: "unat (constant_pool_count cf) \<le> k" and inv: "pool_inv k cf"
    by blast
  from inv show "length (constant_pool cf) = unat (constant_pool_count cf)"
    by (simp add: pool_inv_def)
  from inv show "constant_pool cf ! 0 = zero_cp_info" if "0 < unat (constant_pool_count cf)"
    using that by (simp add: pool_inv_def)
  show "\<forall>j. j + 1 < unat (constant_pool_count cf) \<and>
           (tag (constant_pool cf ! j) = CONSTANT_Long \<or>
            tag (constant_pool cf ! j) = CONSTANT_Double) \<longrightarrow>
           constant_pool cf ! (j + 1) = zero_cp_info"
  proof (intro allI impI, elim conjE)
    fix j
    assume j: "j + 1 < unat (constant_pool_count cf)"
      and t: "tag (constant_pool cf ! j) = CONSTANT_Long \<or>
              tag (constant_pool cf ! j) = CONSTANT_Double"
    from inv have len: "length (constant_pool cf) = unat (constant_pool_count cf)"
      and w: "\<And>j. j < length (constant_pool cf) \<Longrightarrow> j < k \<Longrightarrow>
        tag (constant_pool cf ! j) = CONSTANT_Long \<or>
        tag (constant_pool cf ! j) = CONSTANT_Double \<Longrightarrow>
        j + 2 \<le> k \<and> (j + 1 < length (constant_pool cf) \<longrightarrow>
                      constant_pool cf ! (j + 1) = zero_cp_info)"
      unfolding pool_inv_def by blast+
    from w [of j] j k t len show "constant_pool cf ! (j + 1) = zero_cp_info"
      by simp
  qed
qed

theorem double_width_witness:
  "fst (read_constant_pool_entry
          \<lparr>unread = [5, 0, 0, 0, 0, 0, 0, 0, 42, 7, 0, 1], position = 17\<rparr> zero_cp_info True) = 2
   \<and> read_constant_pool_from 2
        (zero_ClassFile\<lparr>constant_pool_count := 5, constant_pool := replicate 5 zero_cp_info\<rparr>)
        \<lparr>unread = [5, 0, 0, 0, 0, 0, 0, 0, 42, 7, 0, 1], position = 17\<rparr> =
      read_constant_pool_from 4
        (zero_ClassFile\<lparr>constant_pool_count := 5,
           constant_pool := [zero_cp_info, zero_cp_info,
             \<lparr>tag = CONSTANT_Long, info = Long_info 0 42\<rparr>, zero_cp_info, zero_cp_info]\<rparr>)
        \<lparr>unread = [7, 0, 1], position = 26\<rparr>
   \<and> read_constant_pool_from 5 sample_ClassFile \<lparr>unread = [], position = 29\<rparr> =
      (Inr sample_ClassFile, \<lparr>unread = [], position = 29\<rparr>)
   \<and> read_class_file (fopen sample_class) =
      (Inr sample_ClassFile, \<lparr>unread = [], position = 76\<rparr>)
   \<and> constant_pool sample_ClassFile ! 0 = zero_cp_info
   \<and> tag (constant_pool sample_ClassFile ! 2) = CONSTANT_Long
   \<and> constant_pool sample_ClassFile ! 3 = zero_cp_info
   \<and> tag (constant_pool sample_ClassFile ! 4) = CONSTANT_Class"
proof -
  let ?fp = "\<lparr>unread = [5, 0, 0, 0, 0, 0, 0, 0, 42, 7, 0, 1], position = 17\<rparr>"
  let ?c = "zero_ClassFile\<lparr>constant_pool_count := 5, constant_pool := replicate 5 zero_cp_info\<rparr>"
  note th = double_width_entries_take_two_slots
  have 1: "fst (read_constant_pool_entry ?fp zero_cp_info True) = 2"
    using th [of 5 ?fp "[0, 0, 0, 0, 0, 0, 0, 42, 7, 0, 1]" zero_cp_info]
    by (simp add: CONSTANT_defs)
  have 2: "read_constant_pool_from 2 ?c ?fp =
      read_constant_pool_from 4
        (zero_ClassFile\<lparr>constant_pool_count := 5,
           constant_pool := [zero_cp_info, zero_cp_info,
             \<lparr>tag = CONSTANT_Long, info = Long_info 0 42\<rparr>, zero_cp_info, zero_cp_info]\<rparr>)
        \<lparr>unread = [7, 0, 1], position = 26\<rparr>"
    using th [of 5 ?fp _ _ 0 0 0 0 0 0 0 42 "[7, 0, 1]" 2 ?c]
    by (simp add: CONSTANT_defs zero_ClassFile_def zero_cp_info_def bswap32_def
          replicate_numeral)
  have 3: "read_constant_pool_from 5 sample_ClassFile \<lparr>unread = [], position = 29\<rparr> =
      (Inr sample_ClassFile, \<lparr>unread = [], position = 29\<rparr>)"
    using th [of _ "\<lparr>unread = [], position = 29\<rparr>" _ _ _ _ _ _ _ _ _ _ _ 5 sample_ClassFile]
    by (simp add: sample_ClassFile_def)
  have 4: "read_class_file (fopen sample_class) =
      (Inr sample_ClassFile, \<lparr>unread = [], position = 76\<rparr>)"
    by (rule read_sample_class)
  have 5: "constant_pool sample_ClassFile ! 0 = zero_cp_info
      \<and> tag (constant_pool sample_ClassFile ! 2) = CONSTANT_Long
      \<and> constant_pool sample_ClassFile ! 3 = zero_cp_info
      \<and> tag (constant_pool sample_ClassFile ! 4) = CONSTANT_Class"
    using th [of _ _ _ _ _ _ _ _ _ _ _ _ _ _ _ "fopen sample_class" sample_ClassFile
                 "\<lparr>unread = [], position = 76\<rparr>"] 4
    by (simp add: sample_ClassFile_def)
  from 1 2 3 4 5 show ?thesis by simp
qed

subsection \<open>Ceilings on declared sizes\<close>

lemma u16_le_MAX_STRING_LENGTH: "unat (x :: u16) \<le> MAX_STRING_LENGTH"
proof -
  have "unat x < 2 ^ 16"
    using unsigned_less [of x] by simp
  then show ?thesis
    by (simp add: MAX_STRING_LENGTH_def)
qed

lemma utf8_entry:
  assumes "unread fp = CONSTANT_Utf8 # a # b # content"
    and "unat (bswap16 a b) \<le> length content"
  shows "read_constant_pool_entry fp entry True =
           (1, entry\<lparr>tag := CONSTANT_Utf8,
                 info := Utf8_info (bswap16 a b) (take (unat (bswap16 a b)) content)\<rparr>,
            True,
            \<lparr>unread = drop (unat (bswap16 a b)) content,
             position = position fp + 3 + unat (bswap16 a b)\<rparr>)"
proof -
  have "\<not> MAX_STRING_LENGTH < unat (bswap16 a b)"
    using u16_le_MAX_STRING_LENGTH [of "bswap16 a b"] by simp
  with assms show ?thesis
    by (simp add: read_constant_pool_entry_def read_u1_eq read_u2_eq cp_switch_def
          safe_fread_def CONSTANT_defs add.commute del: add_2_eq_Suc add_2_eq_Suc')
qed

lemma pool_count_too_large:
  assumes "MAX_CONSTANT_POOL_SIZE < unat (bswap16 c1 c0)"
    and "\<not> (bswap16 M1 M0 < 45 \<or> 69 < bswap16 M1 M0)"
  shows "read_class_file
           (fopen (0xCA # 0xFE # 0xBA # 0xBE # m1 # m0 # M1 # M0 # c1 # c0 # rest)) =
         (Inl Invalid_constant_pool_count, \<lparr>unread = rest, position = 10\<rparr>)"
  using assms
  by (simp add: read_class_file_def read_before_methods_def read_magic_def read_version_def
        read_constant_pool_count_def read_u2_eq read_u4_eq fopen_def bswap32_magic Let_def)

lemma methods_count_too_large:
  assumes "1000 < unat (bswap16 a b)"
  shows "read_methods_count cf \<lparr>unread = a # b # rest, position = p\<rparr> =
           (Inl Method_count_suspiciously_large, \<lparr>unread = rest, position = p + 2\<rparr>)"
  using assms by (simp add: read_methods_count_def read_u2_eq Let_def)

text \<open>C7: a \<open>constant_pool_count\<close> above \<open>MAX_CONSTANT_POOL_SIZE\<close> makes
  \<open>read_class_file\<close> fail right after the count was read, and a \<open>methods_count\<close> above
  1000 makes the part before the methods, and with it \<open>read_class_file\<close>, fail right
  after that count was read. The length of a string entry is a \<open>uint16_t\<close> and so never
  exceeds \<open>MAX_STRING_LENGTH\<close> = 65535: the test of the source on it never fails, and
  a string entry whose bytes are there is accepted with any declared length. In every
  container that \<open>read_class_file\<close> returns, the pool count, the method count and the
  length of every string buffer are within their ceilings.\<close>

theorem declared_sizes_have_ceilings:
  "(MAX_CONSTANT_POOL_SIZE < unat (bswap16 c1 c0) \<and>
    \<not> (bswap16 M1 M0 < 45 \<or> 69 < bswap16 M1 M0) \<longrightarrow>
      read_class_file
        (fopen (0xCA # 0xFE # 0xBA # 0xBE # m1 # m0 # M1 # M0 # c1 # c0 # rest)) =
      (Inl Invalid_constant_pool_count, \<lparr>unread = rest, position = 10\<rparr>))
   \<and> (1000 < unat (bswap16 a b) \<longrightarrow>
      read_methods_count cf0 \<lparr>unread = a # b # rest', position = p\<rparr> =
      (Inl Method_count_suspiciously_large, \<lparr>unread = rest', position = p + 2\<rparr>))
   \<and> (read_before_methods file0 = (Inl Method_count_suspiciously_large, file1) \<longrightarrow>
      read_class_file file0 = (Inl Method_count_suspiciously_large, file1))
   \<and> unat (len :: u16) \<le> MAX_STRING_LENGTH
   \<and> (unread fp = CONSTANT_Utf8 # l1 # l0 # content \<and>
      unat (bswap16 l1 l0) \<le> length content \<longrightarrow>
      read_constant_pool_entry fp entry True =
        (1, entry\<lparr>tag := CONSTANT_Utf8,
              info := Utf8_info (bswap16 l1 l0) (take (unat (bswap16 l1 l0)) content)\<rparr>,
         True,
         \<lparr>unread = drop (unat (bswap16 l1 l0)) content,
          position = position fp + 3 + unat (bswap16 l1 l0)\<rparr>))
   \<and> (read_class_file file = (Inr cf, file') \<longrightarrow>
      unat (constant_pool_count cf) \<le> MAX_CONSTANT_POOL_SIZE \<and>
      unat (methods_count cf) \<le> 1000 \<and>
      (\<forall>j len bs. j < length (constant_pool cf) \<and>
         info (constant_pool cf ! j) = Utf8_info len bs \<longrightarrow>
         length bs = unat len \<and> length bs \<le> MAX_STRING_LENGTH))"
proof (intro conjI impI)
  assume "MAX_CONSTANT_POOL_SIZE < unat (bswap16 c1 c0) \<and>
    \<not> (bswap16 M1 M0 < 45 \<or> 69 < bswap16 M1 M0)"
  then show "read_class_file
        (fopen (0xCA # 0xFE # 0xBA # 0xBE # m1 # m0 # M1 # M0 # c1 # c0 # rest)) =
      (Inl Invalid_constant_pool_count, \<lparr>unread = rest, position = 10\<rparr>)"
    using pool_count_too_large by blast
next
  assume "1000 < unat (bswap16 a b)"
  then show "read_methods_count cf0 \<lparr>unread = a # b # rest', position = p\<rparr> =
      (Inl Method_count_suspiciously_large, \<lparr>unread = rest', position = p + 2\<rparr>)"
    by (rule methods_count_too_large)
next
  assume "read_before_methods file0 = (Inl Method_count_suspiciously_large, file1)"
  then show "read_class_file file0 = (Inl Method_count_suspiciously_large, file1)"
    by (simp add: read_class_file_def)
next
  show "unat len \<le> MAX_STRING_LENGTH"
    by (rule u16_le_MAX_STRING_LENGTH)
next
  assume "unread fp = CONSTANT_Utf8 # l1 # l0 # content \<and>
      unat (bswap16 l1 l0) \<le> length content"
  then show "read_constant_pool_entry fp entry True =
        (1, entry\<lparr>tag := CONSTANT_Utf8,
              info := Utf8_info (bswap16 l1 l0) (take (unat (bswap16 l1 l0)) content)\<rparr>,
         True,
         \<lparr>unread = drop (unat (bswap16 l1 l0)) content,
          position = position fp + 3 + unat (bswap16 l1 l0)\<rparr>)"
    using utf8_entry by blast
next
  assume r: "read_class_file file = (Inr cf, file')"
  from read_class_file_Inr [OF r] obtain k where
    "unat (constant_pool_count cf) \<le> MAX_CONSTANT_POOL_SIZE"
    and "unat (methods_count cf) \<le> 1000" and inv: "pool_inv k cf"
    by blast
  then show "unat (constant_pool_count cf) \<le> MAX_CONSTANT_POOL_SIZE"
    and "unat (methods_count cf) \<le> 1000"
    by simp_all
  show "\<forall>j len bs. j < length (constant_pool cf) \<and>
         info (constant_pool cf ! j) = Utf8_info len bs \<longrightarrow>
         length bs = unat len \<and> length bs \<le> MAX_STRING_LENGTH"
  proof (intro allI impI, elim conjE)
    fix j len bs
    assume j: "j < length (constant_pool cf)"
      and u: "info (constant_pool cf ! j) = Utf8_info len bs"
    from inv j u have l: "length bs = unat len"
      unfolding pool_inv_def by blast
    with u16_le_MAX_STRING_LENGTH [of len]
    show "length bs = unat len \<and> length bs \<le> MAX_STRING_LENGTH"
      by simp
  qed
qed

theorem declared_sizes_witness:
  "read_class_file (fopen [0xCA, 0xFE, 0xBA, 0xBE, 0, 0, 0, 0x34, 0x80, 0, 7]) =
     (Inl Invalid_constant_pool_count, \<lparr>unread = [7], position = 10\<rparr>)
   \<and> read_methods_count zero_ClassFile \<lparr>unread = [0x03, 0xE9, 0, 1], position = 20\<rparr> =
     (Inl Method_count_suspiciously_large, \<lparr>unread = [0, 1], position = 22\<rparr>)
   \<and> read_class_file (fopen [0xCA, 0xFE, 0xBA, 0xBE, 0, 0, 0, 0x34, 0, 1,
        0, 0x21, 0, 0, 0, 0, 0, 0, 0, 0, 0x03, 0xE9, 0, 1]) =
     (Inl Method_count_suspiciously_large, \<lparr>unread = [0, 1], position = 22\<rparr>)
   \<and> unat (0xFFFF :: u16) \<le> MAX_STRING_LENGTH
   \<and> read_constant_pool_entry
       \<lparr>unread = [1, 0, 4, 0x43, 0x6F, 0x64, 0x65, 7], position = 10\<rparr> zero_cp_info True =
     (1, \<lparr>tag = CONSTANT_Utf8, info = Utf8_info 4 Code_literal\<rparr>, True,
      \<lparr>unread = [7], position = 17\<rparr>)
   \<and> read_class_file (fopen sample_class) =
      (Inr sample_ClassFile, \<lparr>unread = [], position = 76\<rparr>)
   \<and> unat (constant_pool_count sample_ClassFile) \<le> MAX_CONSTANT_POOL_SIZE
   \<and> unat (methods_count sample_ClassFile) \<le> 1000
   \<and> info (constant_pool sample_ClassFile ! 1) = Utf8_info 4 Code_literal
   \<and> length Code_literal = unat (4 :: u16)
   \<and> length Code_literal \<le> MAX_STRING_LENGTH"
proof -
  note th = declared_sizes_have_ceilings
  let ?big = "[0xCA, 0xFE, 0xBA, 0xBE, 0, 0, 0, 0x34, 0, 1,
        0, 0x21, 0, 0, 0, 0, 0, 0, 0, 0, 0x03, 0xE9, 0, 1] :: u8 list"
  have 1: "read_class_file (fopen [0xCA, 0xFE, 0xBA, 0xBE, 0, 0, 0, 0x34, 0x80, 0, 7]) =
     (Inl Invalid_constant_pool_count, \<lparr>unread = [7], position = 10\<rparr>)"
    using th [where ?c1.0 = "0x80" and ?c0.0 = 0 and ?M1.0 = 0 and ?M0.0 = "0x34"
                and ?m1.0 = 0 and ?m0.0 = 0 and rest = "[7]"]
    by (simp add: bswap16_def MAX_CONSTANT_POOL_SIZE_def)
  have 2: "read_methods_count zero_ClassFile \<lparr>unread = [0x03, 0xE9, 0, 1], position = 20\<rparr> =
     (Inl Method_count_suspiciously_large, \<lparr>unread = [0, 1], position = 22\<rparr>)"
    using th [where a = "0x03" and b = "0xE9" and rest' = "[0, 1]" and p = 20
                and ?cf0.0 = zero_ClassFile]
    by (simp add: bswap16_def)
  have b: "read_before_methods (fopen ?big) =
     (Inl Method_count_suspiciously_large, \<lparr>unread = [0, 1], position = 22\<rparr>)"
    by (simp add: decode_eval)
  have 3: "read_class_file (fopen ?big) =
     (Inl Method_count_suspiciously_large, \<lparr>unread = [0, 1], position = 22\<rparr>)"
    using th [where ?file0.0 = "fopen ?big" and ?file1.0 = "\<lparr>unread = [0, 1], position = 22\<rparr>"] b
    by simp
  have 4: "unat (0xFFFF :: u16) \<le> MAX_STRING_LENGTH"
    using th [where len = "0xFFFF"] by simp
  have 5: "read_constant_pool_entry
       \<lparr>unread = [1, 0, 4, 0x43, 0x6F, 0x64, 0x65, 7], position = 10\<rparr> zero_cp_info True =
     (1, \<lparr>tag = CONSTANT_Utf8, info = Utf8_info 4 Code_literal\<rparr>, True,
      \<lparr>unread = [7], position = 17\<rparr>)"
    using th [where fp = "\<lparr>unread = [1, 0, 4, 0x43, 0x6F, 0x64, 0x65, 7], position = 10\<rparr>"
                and ?l1.0 = 0 and ?l0.0 = 4 and content = "[0x43, 0x6F, 0x64, 0x65, 7]"
                and entry = zero_cp_info]
    by (simp add: bswap16_def CONSTANT_defs zero_cp_info_def Code_literal_def)
  have 6: "read_class_file (fopen sample_class) =
      (Inr sample_ClassFile, \<lparr>unread = [], position = 76\<rparr>)"
    by (rule read_sample_class)
  have q: "unat (constant_pool_count sample_ClassFile) \<le> MAX_CONSTANT_POOL_SIZE \<and>
      unat (methods_count sample_ClassFile) \<le> 1000 \<and>
      (\<forall>j len bs. j < length (constant_pool sample_ClassFile) \<and>
         info (constant_pool sample_ClassFile ! j) = Utf8_info len bs \<longrightarrow>
         length bs = unat len \<and> length bs \<le> MAX_STRING_LENGTH)"
    using th [where ?file = "fopen sample_class" and cf = sample_ClassFile
                and ?file' = "\<lparr>unread = [], position = 76\<rparr>",
                THEN conjunct2, THEN conjunct2, THEN conjunct2, THEN conjunct2,
                THEN conjunct2] 6
    by blast
  have 8: "info (constant_pool sample_ClassFile ! 1) = Utf8_info 4 Code_literal"
    by (simp add: sample_ClassFile_def)
  have 9: "1 < length (constant_pool sample_ClassFile)"
    by (simp add: sample_ClassFile_def)
  from q [THEN conjunct2, THEN conjunct2, rule_format, of 1 4 Code_literal] 8 9
  have 7: "length Code_literal = unat (4 :: u16) \<and> length Code_literal \<le> MAX_STRING_LENGTH"
    by blast
  from 1 2 3 4 5 6 q 7 8 show ?thesis by simp
qed

subsection \<open>The version check\<close>

lemma andThen_later:
  assumes "\<And>e. fst r = Inl e \<Longrightarrow> \<not> version_check_error e"
    and "\<And>x f e. r = (Inr x, f) \<Longrightarrow> fst (k x f) = Inl e \<Longrightarrow> \<not> version_check_error e"
    and "fst (andThen r k) = Inl e"
  shows "\<not> version_check_error e"
proof (cases r)
  case (Pair a f)
  show ?thesis
  proof (cases a)
    case (Inl e')
    with Pair assms(1) [of e'] assms(3) show ?thesis by simp
  next
    case (Inr x)
    with Pair assms(2) [of x f e] assms(3) show ?thesis by simp
  qed
qed

lemma read_constant_pool_count_later:
  "fst (read_constant_pool_count cf fp) = Inl e \<Longrightarrow> \<not> version_check_error e"
  by (auto simp add: read_constant_pool_count_def read_u2_eq Let_def version_check_error_def
        split: if_splits)

lemma read_constant_pool_from_later:
  "fst (read_constant_pool_from i cf fp) = Inl e \<Longrightarrow> \<not> version_check_error e"
proof (induction i cf fp rule: read_constant_pool_from.induct)
  case (1 i cf fp)
  show ?case
  proof (cases "i < unat (constant_pool_count cf)")
    case False
    with "1.prems" show ?thesis
      by (subst (asm) read_constant_pool_from.simps) simp
  next
    case True
    obtain step entry ok f1 where
      r: "read_constant_pool_entry fp (constant_pool cf ! i) True = (step, entry, ok, f1)"
      by (cases "read_constant_pool_entry fp (constant_pool cf ! i) True") auto
    show ?thesis
    proof (cases "\<not> ok \<or> step = 0")
      case bad: True
      from "1.prems" have "e = Failed_reading_constant_pool_entry i"
        by (subst (asm) read_constant_pool_from.simps) (use True r bad in auto)
      then show ?thesis by (simp add: version_check_error_def)
    next
      case good: False
      from "1.prems" have "fst (read_constant_pool_from (i + step)
          (cf\<lparr>constant_pool := (constant_pool cf)[i := entry]\<rparr>) f1) = Inl e"
        by (subst (asm) read_constant_pool_from.simps) (use True r good in auto)
      with "1.IH" [OF True r [symmetric] refl refl good] show ?thesis by simp
    qed
  qed
qed

lemma read_class_header_later:
  "fst (read_class_header cf fp) = Inl e \<Longrightarrow> \<not> version_check_error e"
  by (auto simp add: read_class_header_def read_u2_eq Let_def version_check_error_def
        split: if_splits)

lemma skip_interfaces_later:
  "fst (skip_interfaces cf fp) = Inl e \<Longrightarrow> \<not> version_check_error e"
  by (auto simp add: skip_interfaces_def read_u2_eq fseek_cur_def Let_def
        version_check_error_def split: if_splits)

lemma skip_field_attribute_later:
  "fst (skip_field_attribute fp) = Inl e \<Longrightarrow> \<not> version_check_error e"
  by (auto simp add: skip_field_attribute_def read_u2_eq read_u4_eq fseek_cur_def Let_def
        version_check_error_def split: if_splits)

lemma skip_field_attributes_later:
  "fst (skip_field_attributes j n fp) = Inl e \<Longrightarrow> \<not> version_check_error e"
proof (induction j n fp arbitrary: e rule: skip_field_attributes.induct)
  case (1 j n fp)
  show ?case
  proof (cases "j < unat n")
    case False
    with "1.prems" show ?thesis
      by (subst (asm) skip_field_attributes.simps) simp
  next
    case True
    from "1.prems" have "fst (andThen (skip_field_attribute fp)
        (\<lambda>_ f. skip_field_attributes (j + 1) n f)) = Inl e"
      by (subst (asm) skip_field_attributes.simps) (simp add: True)
    then show ?thesis
    proof (rule andThen_later [rotated 2])
      fix e' assume "fst (skip_field_attribute fp) = Inl e'"
      then show "\<not> version_check_error e'" by (rule skip_field_attribute_later)
    next
      fix x f e'
      assume "skip_field_attribute fp = (Inr x, f)" and "fst (skip_field_attributes (j + 1) n f) = Inl e'"
      then show "\<not> version_check_error e'" by (rule "1.IH" [OF True])
    qed
  qed
qed

lemma skip_field_later:
  "fst (skip_field fp) = Inl e \<Longrightarrow> \<not> version_check_error e"
  by (auto simp add: skip_field_def read_u2_eq Let_def version_check_error_def
        split: if_splits dest!: skip_field_attributes_later)

lemma skip_fields_from_later:
  "fst (skip_fields_from i cf fp) = Inl e \<Longrightarrow> \<not> version_check_error e"
proof (induction i cf fp arbitrary: e rule: skip_fields_from.induct)
  case (1 i cf fp)
  show ?case
  proof (cases "i < unat (fields_count cf)")
    case False
    with "1.prems" show ?thesis
      by (subst (asm) skip_fields_from.simps) simp
  next
    case True
    from "1.prems" have "fst (andThen (skip_field fp)
        (\<lambda>_ f. skip_fields_from (i + 1) cf f)) = Inl e"
      by (subst (asm) skip_fields_from.simps) (simp add: True)
    then show ?thesis
    proof (rule andThen_later [rotated 2])
      fix e' assume "fst (skip_field fp) = Inl e'"
      then show "\<not> version_check_error e'" by (rule skip_field_later)
    next
      fix x f e'
      assume "skip_field fp = (Inr x, f)" and "fst (skip_fields_from (i + 1) cf f) = Inl e'"
      then show "\<not> version_check_error e'" by (rule "1.IH" [OF True])
    qed
  qed
qed

lemma skip_fields_later:
  "fst (skip_fields cf fp) = Inl e \<Longrightarrow> \<not> version_check_error e"
  by (auto simp add: skip_fields_def read_u2_eq Let_def version_check_error_def
        split: if_splits dest!: skip_fields_from_later)

lemma read_methods_count_later:
  "fst (read_methods_count cf fp) = Inl e \<Longrightarrow> \<not> version_check_error e"
  by (auto simp add: read_methods_count_def read_u2_eq Let_def version_check_error_def
        split: if_splits)

lemma skip_code_sub_attribute_later:
  "fst (skip_code_sub_attribute fp) = Inl e \<Longrightarrow> \<not> version_check_error e"
  by (auto simp add: skip_code_sub_attribute_def read_u2_eq read_u4_eq fseek_cur_def Let_def
        version_check_error_def split: if_splits)

lemma skip_code_sub_attributes_later:
  "fst (skip_code_sub_attributes k n fp) = Inl e \<Longrightarrow> \<not> version_check_error e"
proof (induction k n fp arbitrary: e rule: skip_code_sub_attributes.induct)
  case (1 k n fp)
  show ?case
  proof (cases "k < unat n")
    case False
    with "1.prems" show ?thesis
      by (subst (asm) skip_code_sub_attributes.simps) simp
  next
    case True
    from "1.prems" have "fst (andThen (skip_code_sub_attribute fp)
        (\<lambda>_ f. skip_code_sub_attributes (k + 1) n f)) = Inl e"
      by (subst (asm) skip_code_sub_attributes.simps) (simp add: True)
    then show ?thesis
    proof (rule andThen_later [rotated 2])
      fix e' assume "fst (skip_code_sub_attribute fp) = Inl e'"
      then show "\<not> version_check_error e'" by (rule skip_code_sub_attribute_later)
    next
      fix x f e'
      assume "skip_code_sub_attribute fp = (Inr x, f)" and "fst (skip_code_sub_attributes (k + 1) n f) = Inl e'"
      then show "\<not> version_check_error e'" by (rule "1.IH" [OF True])
    qed
  qed
qed

lemma skip_code_tail_later:
  "fst (skip_code_tail fp) = Inl e \<Longrightarrow> \<not> version_check_error e"
  by (auto simp add: skip_code_tail_def read_u2_eq fseek_cur_def Let_def
        version_check_error_def split: if_splits dest!: skip_code_sub_attributes_later)

lemma read_code_attribute_later:
  assumes "fst (read_code_attribute m fp) = Inl e"
  shows "\<not> version_check_error e"
proof -
  have t: "\<not> version_check_error e"
    if "fst (andThen (skip_code_tail f) (\<lambda>_ f'. (Inr m', f'))) = Inl e" for f m'
    using that by (rule andThen_later [rotated 2]) (auto dest: skip_code_tail_later)
  from assms show ?thesis
    by (auto simp add: read_code_attribute_def read_u2_eq read_u4_eq safe_fread_def Let_def
          version_check_error_def [of Could_not_read_code_core_fields]
          version_check_error_def [of Could_not_read_code_bytes]
          split: if_splits dest: t)
qed

lemma read_method_attribute_later:
  "fst (read_method_attribute cf m fp) = Inl e \<Longrightarrow> \<not> version_check_error e"
  by (auto simp add: read_method_attribute_def read_u2_eq read_u4_eq fseek_cur_def Let_def
        version_check_error_def [of Error_reading_method_attribute]
        version_check_error_def [of Attribute_name_index_out_of_range]
        split: if_splits dest: read_code_attribute_later)

lemma read_method_attributes_later:
  "fst (read_method_attributes j cf m fp) = Inl e \<Longrightarrow> \<not> version_check_error e"
proof (induction j cf m fp arbitrary: e rule: read_method_attributes.induct)
  case (1 j cf m fp)
  show ?case
  proof (cases "j < unat (attributes_count m)")
    case False
    with "1.prems" show ?thesis
      by (subst (asm) read_method_attributes.simps) simp
  next
    case True
    from "1.prems" have "fst (andThen (read_method_attribute cf m fp)
        (\<lambda>m' f. read_method_attributes (j + 1) cf m' f)) = Inl e"
      by (subst (asm) read_method_attributes.simps) (simp add: True)
    then show ?thesis
    proof (rule andThen_later [rotated 2])
      fix e' assume "fst (read_method_attribute cf m fp) = Inl e'"
      then show "\<not> version_check_error e'" by (rule read_method_attribute_later)
    next
      fix x f e'
      assume "read_method_attribute cf m fp = (Inr x, f)" and "fst (read_method_attributes (j + 1) cf x f) = Inl e'"
      then show "\<not> version_check_error e'" by (rule "1.IH" [OF True])
    qed
  qed
qed

lemma read_method_later:
  "fst (read_method cf m fp) = Inl e \<Longrightarrow> \<not> version_check_error e"
  by (auto simp add: read_method_def read_u2_eq Let_def
        version_check_error_def [of Could_not_read_method_info]
        split: if_splits dest: read_method_attributes_later)

lemma read_methods_from_later:
  "fst (read_methods_from i cf fp) = Inl e \<Longrightarrow> \<not> version_check_error e"
proof (induction i cf fp arbitrary: e rule: read_methods_from.induct)
  case (1 i cf fp)
  show ?case
  proof (cases "i < unat (methods_count cf)")
    case False
    with "1.prems" show ?thesis
      by (subst (asm) read_methods_from.simps) simp
  next
    case True
    from "1.prems" have "fst (andThen (read_method cf (methods cf ! i) fp)
        (\<lambda>m f. read_methods_from (i + 1) (cf\<lparr>methods := (methods cf)[i := m]\<rparr>) f)) = Inl e"
      by (subst (asm) read_methods_from.simps) (simp add: True)
    then show ?thesis
    proof (rule andThen_later [rotated 2])
      fix e' assume "fst (read_method cf (methods cf ! i) fp) = Inl e'"
      then show "\<not> version_check_error e'" by (rule read_method_later)
    next
      fix x f e'
      assume "read_method cf (methods cf ! i) fp = (Inr x, f)" and "fst (read_methods_from (i + 1) (cf\<lparr>methods := (methods cf)[i := x]\<rparr>) f) = Inl e'"
      then show "\<not> version_check_error e'" by (rule "1.IH" [OF True])
    qed
  qed
qed

lemma andThen_Inl_cases:
  assumes "fst (andThen r k) = Inl e"
  obtains "fst r = Inl e" | x f where "r = (Inr x, f)" and "fst (k x f) = Inl e"
  using assms by (cases r; cases "fst r") (auto simp: andThen_def)

lemma after_version_later:
  assumes "fst (andThen
     (andThen (read_constant_pool_count cf fp) (\<lambda>cf file.
      andThen (read_constant_pool cf file) (\<lambda>cf file.
      andThen (read_class_header cf file) (\<lambda>cf file.
      andThen (skip_interfaces cf file) (\<lambda>cf file.
      andThen (skip_fields cf file) (\<lambda>cf file.
      read_methods_count cf file))))))
     read_methods) = Inl e"
  shows "\<not> version_check_error e"
  using assms
  by (auto elim!: andThen_Inl_cases
      dest: read_constant_pool_count_later read_constant_pool_from_later
        read_class_header_later skip_interfaces_later skip_fields_later
        read_methods_count_later read_methods_from_later
      simp: read_constant_pool_def read_methods_def)

lemma read_class_file_version:
  "read_class_file (fopen (0xCA # 0xFE # 0xBA # 0xBE # m1 # m0 # M1 # M0 # rest)) =
     (if bswap16 M1 M0 < 45 \<or> 69 < bswap16 M1 M0
      then (Inl Unsupported_class_file_version, \<lparr>unread = rest, position = 8\<rparr>)
      else andThen
        (andThen (read_constant_pool_count
            (zero_ClassFile\<lparr>magic := JAVA_MAGIC, minor_version := bswap16 m1 m0,
               major_version := bswap16 M1 M0\<rparr>) \<lparr>unread = rest, position = 8\<rparr>)
          (\<lambda>cf file.
           andThen (read_constant_pool cf file) (\<lambda>cf file.
           andThen (read_class_header cf file) (\<lambda>cf file.
           andThen (skip_interfaces cf file) (\<lambda>cf file.
           andThen (skip_fields cf file) (\<lambda>cf file.
           read_methods_count cf file))))))
        read_methods)"
  by (simp add: read_class_file_def read_before_methods_def read_magic_def read_version_def
        read_u2_eq read_u4_eq fopen_def bswap32_magic [THEN iffD2] Let_def)

lemma read_class_file_short:
  assumes "\<not> (\<exists>m1 m0 M1 M0 rest. bs = 0xCA # 0xFE # 0xBA # 0xBE # m1 # m0 # M1 # M0 # rest)"
  shows "fst (read_class_file (fopen bs)) = Inl Invalid_or_missing_magic_number \<or>
         fst (read_class_file (fopen bs)) = Inl Could_not_read_version_numbers"
proof (cases bs rule: four_bytes_cases)
  case short
  then show ?thesis
    by (simp add: read_class_file_def read_before_methods_def read_magic_def
          read_u4_eq fopen_def)
next
  case (long a b c d r)
  show ?thesis
  proof (cases "bswap32 a b c d = JAVA_MAGIC")
    case False
    with long show ?thesis
      by (simp add: read_class_file_def read_before_methods_def read_magic_def
          read_u4_eq fopen_def)
  next
    case True
    then have m: "a = 0xCA" "b = 0xFE" "c = 0xBA" "d = 0xBE"
      by (simp_all add: bswap32_magic)
    show ?thesis
    proof (cases r rule: four_bytes_cases)
      case short
      with long True show ?thesis
        by (auto simp add: read_class_file_def read_before_methods_def read_magic_def
            read_version_def read_u2_eq read_u4_eq fopen_def Let_def)
    next
      case (long m1 m0 M1 M0 rest)
      with \<open>bs = a # b # c # d # r\<close> m assms show ?thesis by simp
    qed
  qed
qed

text \<open>C9: on the four bytes of the version, the check fails with the message for
  an unsupported version when the major version is below 45 or above 69, and otherwise
  returns the container with both versions stored. \<open>read_class_file\<close> fails with that
  message exactly on the files that start with the magic number and eight bytes on
  carry a major version outside 45 to 69; on a file with the magic number and a major
  version within 45 to 69, any error it returns is raised after the version check.\<close>

theorem unsupported_version_exactly_outside_interval:
  "read_version cf \<lparr>unread = m1 # m0 # M1 # M0 # rest, position = p\<rparr> =
     (if bswap16 M1 M0 < 45 \<or> 69 < bswap16 M1 M0
      then (Inl Unsupported_class_file_version, \<lparr>unread = rest, position = p + 4\<rparr>)
      else (Inr (cf\<lparr>minor_version := bswap16 m1 m0, major_version := bswap16 M1 M0\<rparr>),
            \<lparr>unread = rest, position = p + 4\<rparr>))
   \<and> (fst (read_class_file (fopen bs)) = Inl Unsupported_class_file_version \<longleftrightarrow>
      (\<exists>m1 m0 M1 M0 rest. bs = 0xCA # 0xFE # 0xBA # 0xBE # m1 # m0 # M1 # M0 # rest \<and>
         (bswap16 M1 M0 < 45 \<or> 69 < bswap16 M1 M0)))
   \<and> (\<not> (bswap16 M1 M0 < 45 \<or> 69 < bswap16 M1 M0) \<and>
      fst (read_class_file (fopen (0xCA # 0xFE # 0xBA # 0xBE # m1 # m0 # M1 # M0 # rest)))
        = Inl e \<longrightarrow> \<not> version_check_error e)"
proof (intro conjI impI)
  show "read_version cf \<lparr>unread = m1 # m0 # M1 # M0 # rest, position = p\<rparr> =
     (if bswap16 M1 M0 < 45 \<or> 69 < bswap16 M1 M0
      then (Inl Unsupported_class_file_version, \<lparr>unread = rest, position = p + 4\<rparr>)
      else (Inr (cf\<lparr>minor_version := bswap16 m1 m0, major_version := bswap16 M1 M0\<rparr>),
            \<lparr>unread = rest, position = p + 4\<rparr>))"
    by (simp add: read_version_def read_u2_eq Let_def add.commute
          del: add_2_eq_Suc add_2_eq_Suc')
next
  show "fst (read_class_file (fopen bs)) = Inl Unsupported_class_file_version \<longleftrightarrow>
      (\<exists>m1 m0 M1 M0 rest. bs = 0xCA # 0xFE # 0xBA # 0xBE # m1 # m0 # M1 # M0 # rest \<and>
         (bswap16 M1 M0 < 45 \<or> 69 < bswap16 M1 M0))"
  proof
    assume u: "fst (read_class_file (fopen bs)) = Inl Unsupported_class_file_version"
    have "\<exists>m1 m0 M1 M0 rest. bs = 0xCA # 0xFE # 0xBA # 0xBE # m1 # m0 # M1 # M0 # rest"
    proof (rule ccontr)
      assume "\<not> (\<exists>m1 m0 M1 M0 rest.
        bs = 0xCA # 0xFE # 0xBA # 0xBE # m1 # m0 # M1 # M0 # rest)"
      from read_class_file_short [OF this] u show False by simp
    qed
    then obtain m1 m0 M1 M0 rest where
      bs: "bs = 0xCA # 0xFE # 0xBA # 0xBE # m1 # m0 # M1 # M0 # rest"
      by blast
    have "bswap16 M1 M0 < 45 \<or> 69 < bswap16 M1 M0"
    proof (rule ccontr)
      assume "\<not> (bswap16 M1 M0 < 45 \<or> 69 < bswap16 M1 M0)"
      with u have "\<not> version_check_error Unsupported_class_file_version"
        unfolding bs read_class_file_version by (simp add: after_version_later)
      then show False by (simp add: version_check_error_def)
    qed
    with bs show "\<exists>m1 m0 M1 M0 rest. bs = 0xCA # 0xFE # 0xBA # 0xBE # m1 # m0 # M1 # M0 # rest
        \<and> (bswap16 M1 M0 < 45 \<or> 69 < bswap16 M1 M0)"
      by blast
  next
    assume "\<exists>m1 m0 M1 M0 rest. bs = 0xCA # 0xFE # 0xBA # 0xBE # m1 # m0 # M1 # M0 # rest \<and>
         (bswap16 M1 M0 < 45 \<or> 69 < bswap16 M1 M0)"
    then show "fst (read_class_file (fopen bs)) = Inl Unsupported_class_file_version"
      by (auto simp add: read_class_file_version)
  qed
next
  assume "\<not> (bswap16 M1 M0 < 45 \<or> 69 < bswap16 M1 M0) \<and>
      fst (read_class_file (fopen (0xCA # 0xFE # 0xBA # 0xBE # m1 # m0 # M1 # M0 # rest)))
        = Inl e"
  then show "\<not> version_check_error e"
    unfolding read_class_file_version by (auto dest: after_version_later)
qed

theorem unsupported_version_witness:
  "read_version zero_ClassFile \<lparr>unread = [0, 0, 0, 44, 9], position = 4\<rparr> =
     (Inl Unsupported_class_file_version, \<lparr>unread = [9], position = 8\<rparr>)
   \<and> read_version zero_ClassFile \<lparr>unread = [0, 0, 0, 70, 9], position = 4\<rparr> =
     (Inl Unsupported_class_file_version, \<lparr>unread = [9], position = 8\<rparr>)
   \<and> read_version zero_ClassFile \<lparr>unread = [0, 3, 0, 45, 9], position = 4\<rparr> =
     (Inr (zero_ClassFile\<lparr>minor_version := 3, major_version := 45\<rparr>),
      \<lparr>unread = [9], position = 8\<rparr>)
   \<and> read_version zero_ClassFile \<lparr>unread = [0, 0, 0, 69, 9], position = 4\<rparr> =
     (Inr (zero_ClassFile\<lparr>minor_version := 0, major_version := 69\<rparr>),
      \<lparr>unread = [9], position = 8\<rparr>)
   \<and> fst (read_class_file (fopen [0xCA, 0xFE, 0xBA, 0xBE, 0, 0, 0, 44, 0, 1])) =
       Inl Unsupported_class_file_version
   \<and> fst (read_class_file (fopen sample_class)) \<noteq> Inl Unsupported_class_file_version
   \<and> fst (read_class_file (fopen [0xCA, 0xFE, 0xBA, 0xBE, 0, 0, 0, 52])) =
       Inl Invalid_constant_pool_count
   \<and> \<not> version_check_error Invalid_constant_pool_count"
proof -
  note th = unsupported_version_exactly_outside_interval
  have 1: "read_version zero_ClassFile \<lparr>unread = [0, 0, 0, 44, 9], position = 4\<rparr> =
     (Inl Unsupported_class_file_version, \<lparr>unread = [9], position = 8\<rparr>)"
    using th [THEN conjunct1, of zero_ClassFile 0 0 0 44 "[9]" 4]
    by (simp add: bswap16_def)
  have 2: "read_version zero_ClassFile \<lparr>unread = [0, 0, 0, 70, 9], position = 4\<rparr> =
     (Inl Unsupported_class_file_version, \<lparr>unread = [9], position = 8\<rparr>)"
    using th [THEN conjunct1, of zero_ClassFile 0 0 0 70 "[9]" 4]
    by (simp add: bswap16_def)
  have 3: "read_version zero_ClassFile \<lparr>unread = [0, 3, 0, 45, 9], position = 4\<rparr> =
     (Inr (zero_ClassFile\<lparr>minor_version := 3, major_version := 45\<rparr>),
      \<lparr>unread = [9], position = 8\<rparr>)"
    using th [THEN conjunct1, of zero_ClassFile 0 3 0 45 "[9]" 4]
    by (simp add: bswap16_def)
  have 4: "read_version zero_ClassFile \<lparr>unread = [0, 0, 0, 69, 9], position = 4\<rparr> =
     (Inr (zero_ClassFile\<lparr>minor_version := 0, major_version := 69\<rparr>),
      \<lparr>unread = [9], position = 8\<rparr>)"
    using th [THEN conjunct1, of zero_ClassFile 0 0 0 69 "[9]" 4]
    by (simp add: bswap16_def)
  have "\<exists>m1 m0 M1 M0 rest. [0xCA, 0xFE, 0xBA, 0xBE, 0, 0, 0, 44, 0, 1] =
          0xCA # 0xFE # 0xBA # 0xBE # m1 # m0 # M1 # M0 # rest \<and>
          (bswap16 M1 M0 < 45 \<or> 69 < bswap16 M1 M0)"
    by (simp add: bswap16_def)
  then have 5: "fst (read_class_file (fopen [0xCA, 0xFE, 0xBA, 0xBE, 0, 0, 0, 44, 0, 1])) =
       Inl Unsupported_class_file_version"
    using th [THEN conjunct2, THEN conjunct1,
              of "[0xCA, 0xFE, 0xBA, 0xBE, 0, 0, 0, 44, 0, 1]"]
    by blast
  have 6: "fst (read_class_file (fopen sample_class)) \<noteq> Inl Unsupported_class_file_version"
    by (simp add: read_sample_class)
  have 7: "fst (read_class_file (fopen [0xCA, 0xFE, 0xBA, 0xBE, 0, 0, 0, 52])) =
       Inl Invalid_constant_pool_count"
    by (simp add: read_class_file_def decode_eval)
  have 8: "\<not> version_check_error Invalid_constant_pool_count"
    using th [THEN conjunct2, THEN conjunct2, of 0 52 0 0 "[]" Invalid_constant_pool_count] 7
    by (simp add: bswap16_def)
  from 1 2 3 4 5 6 7 8 show ?thesis by simp
qed

subsection \<open>Truncated input\<close>

text \<open>C2: a short read of a field, of the bytes of a string or of the instruction
  bytes makes \<open>read_class_file\<close> fail, but the regions that are skipped with \<open>fseek\<close>
  are not checked against the end of the file: \<open>fseek\<close> moves the position beyond the
  end and returns 0, and only a later read fails. The last attribute of the last method
  is followed by no read. The sample file cut one or two bytes short, inside the payload
  of that attribute, is decoded without error to the container of the whole file, with
  the stream left at position 76, beyond the end of the data.\<close>

theorem truncated_attribute_payload_accepted:
  "length sample_class = 76 \<and>
   read_class_file (fopen (take 74 sample_class)) =
     (Inr sample_ClassFile, \<lparr>unread = [], position = 76\<rparr>) \<and>
   read_class_file (fopen (take 75 sample_class)) =
     (Inr sample_ClassFile, \<lparr>unread = [], position = 76\<rparr>)"
  by (simp add: sample_class_def sample_ClassFile_def read_class_file_def decode_eval)

end
